theory Spec2Isabelle
  imports Complex_Main "HOL-Library.Word" "HOL-Library.AList"
begin

section \<open>The icon generator \<^verbatim>\<open>generate_icons.py\<close>\<close>

text \<open>
  The script draws a square icon through the Pillow imaging library and writes the icon
  set to disk. The embedding has three layers:
  \<^item> the imaging library: an image is the sequence of drawing calls issued on a
    background, and \<open>getpixel\<close> rasterises that sequence at a pixel;
  \<^item> \<open>create_blockbuster_icon\<close>, translated statement by statement;
  \<^item> \<open>main\<close>, as state passing over a file system with a trace of the effects.
  Python's integers are \<open>int\<close>; \<open>//\<close> and \<open>%\<close> round towards minus infinity, as
  \<open>div\<close> and \<open>mod\<close> do.
\<close>

subsection \<open>Pixels, fonts and the drawing calls\<close>

type_synonym channel = "8 word"
type_synonym rgba = "channel \<times> channel \<times> channel \<times> channel"
type_synonym point = "int \<times> int"
type_synonym box = "int \<times> int \<times> int \<times> int"

datatype error =
    ValueError
  | OverflowError
  | MemoryError
  | FileExistsError string
  | FileNotFoundError string
  | NotADirectoryError string
  | IsADirectoryError string

text \<open>
  A font is what \<open>ImageFont.truetype(path, size)\<close> or \<open>ImageFont.load_default()\<close>
  returns. Which font files exist, how large a text is, which pixels its glyphs cover and
  how large an image fits in memory is decided by the machine the script runs on: these
  are the fields of \<open>env\<close>.
\<close>

datatype font = TrueType string int | DefaultFont

record env =
  truetype_ok :: "string \<Rightarrow> int \<Rightarrow> bool"
  textbbox :: "font \<Rightarrow> string \<Rightarrow> box"
  textmask :: "font \<Rightarrow> string \<Rightarrow> point \<Rightarrow> channel"
  can_allocate :: "string \<Rightarrow> int \<Rightarrow> int \<Rightarrow> bool"

text \<open>
  \<open>textbbox env font text\<close> is \<open>draw.textbbox((0, 0), text, font=font)\<close>, the box
  (left, top, right, bottom); \<open>textmask env font text (dx, dy)\<close> is the coverage, from 0
  to 255, of the pixel at offset \<open>(dx, dy)\<close> from the position the text is drawn at;
  \<open>can_allocate env mode w h\<close> tells whether the machine has the memory for an image
  of that mode, width and height.
\<close>

datatype 'c draw_op =
    Polygon "point list" 'c
  | Rectangle box 'c
  | Ellipse box 'c
  | Text point string 'c font

record mask =
  mask_width :: int
  mask_height :: int
  mask_fill :: channel
  mask_calls :: "channel draw_op list"

record image =
  width :: int
  height :: int
  background :: rgba
  calls :: "rgba draw_op list"
  alpha_band :: "mask option"

text \<open>
  \<open>Image.new(mode, (size, size), colour)\<close> raises for a size it cannot make an image
  of: \<open>ValueError\<close> for a negative size, \<open>OverflowError\<close> for a size that does not
  fit a C \<open>int\<close>, \<open>MemoryError\<close> for a width beyond Pillow's line limit of
  \<open>INT_MAX / 4 - 1\<close> and for an image the machine has no memory for. An image of at
  most 1024 by 1024 pixels, the largest \<open>main\<close> asks for, is taken to fit in memory
  on every machine; beyond that the machine decides.
\<close>

definition INT_MAX :: int where
  "INT_MAX = 2147483647"

definition Image_new_error :: "env \<Rightarrow> string \<Rightarrow> int \<Rightarrow> error option" where
  "Image_new_error e mode sz =
     (if sz < 0 then Some ValueError
      else if INT_MAX < sz then Some OverflowError
      else if INT_MAX div 4 - 1 < sz then Some MemoryError
      else if 1024 < sz \<and> \<not> can_allocate e mode sz sz then Some MemoryError
      else None)"

definition Image_new :: "env \<Rightarrow> int \<Rightarrow> rgba \<Rightarrow> error + image" where
  "Image_new e sz colour =
     (case Image_new_error e ''RGBA'' sz of
        Some err \<Rightarrow> Inl err
      | None \<Rightarrow>
          Inr \<lparr>width = sz, height = sz, background = colour, calls = [],
               alpha_band = None\<rparr>)"

definition Image_new_L :: "env \<Rightarrow> int \<Rightarrow> channel \<Rightarrow> error + mask" where
  "Image_new_L e sz v =
     (case Image_new_error e ''L'' sz of
        Some err \<Rightarrow> Inl err
      | None \<Rightarrow> Inr \<lparr>mask_width = sz, mask_height = sz, mask_fill = v, mask_calls = []\<rparr>)"

text \<open>
  Drawing appends the calls to those of the image; \<open>img.putalpha(mask)\<close> replaces the
  alpha band of the image by the mask.
\<close>

definition draw :: "rgba draw_op list \<Rightarrow> image \<Rightarrow> image" where
  "draw cs img = img\<lparr>calls := calls img @ cs\<rparr>"

definition mask_draw :: "channel draw_op list \<Rightarrow> mask \<Rightarrow> mask" where
  "mask_draw cs m = m\<lparr>mask_calls := mask_calls m @ cs\<rparr>"

definition putalpha :: "mask \<Rightarrow> image \<Rightarrow> image" where
  "putalpha m img = img\<lparr>alpha_band := Some m\<rparr>"

subsection \<open>Rasterisation\<close>

text \<open>
  A rectangle covers its box with both end points.
\<close>

definition in_rectangle :: "box \<Rightarrow> point \<Rightarrow> bool" where
  "in_rectangle b p =
     (case b of (x0, y0, x1, y1) \<Rightarrow> case p of (x, y) \<Rightarrow>
        x0 \<le> x \<and> x \<le> x1 \<and> y0 \<le> y \<and> y \<le> y1)"

text \<open>
  A filled ellipse, as Pillow draws it. With \<open>a\<close> and \<open>b\<close> the width and height of
  the box and coordinates doubled and taken from the centre, a walk follows the outline
  through one quarter, from \<open>(a, b mod 2)\<close> to \<open>(a mod 2, b)\<close>: of the points one
  step up, one step up and left, and one step left, it moves to the one that deviates
  least from the ellipse, the first of them winning a tie. The row at height \<open>cy\<close>,
  above and below the centre, is filled from \<open>- cx\<close> to \<open>cx\<close> for the first point
  \<open>(cx, cy)\<close> the walk has on it. The walk also stops should it pass the height
  \<open>b\<close>, which bounds the recursion; it never does, as \<open>walk_ends\<close> shows.
\<close>

definition quarter_delta :: "int \<Rightarrow> int \<Rightarrow> int \<Rightarrow> int \<Rightarrow> int" where
  "quarter_delta a b x y = \<bar>a * a * (y * y) + b * b * (x * x) - a * a * (b * b)\<bar>"

definition quarter_next :: "int \<Rightarrow> int \<Rightarrow> point \<Rightarrow> point" where
  "quarter_next a b c =
     (case c of (cx, cy) \<Rightarrow>
        (let n = (cx, cy + 2);
             ndelta = quarter_delta a b cx (cy + 2)
         in if cx > 1 then
              (let newdelta = quarter_delta a b (cx - 2) (cy + 2);
                   n = (if ndelta > newdelta then (cx - 2, cy + 2) else n);
                   ndelta = (if ndelta > newdelta then newdelta else ndelta);
                   newdelta = quarter_delta a b (cx - 2) cy
               in if ndelta > newdelta then (cx - 2, cy) else n)
            else n))"

function quarter_points :: "int \<Rightarrow> int \<Rightarrow> point \<Rightarrow> point list" where
  "quarter_points a b c =
     (if (fst c = a mod 2 \<and> snd c = b) \<or> b < snd c then [c]
      else c # quarter_points a b (quarter_next a b c))"
  by pat_completeness auto
termination
  by (relation "measure (\<lambda>(a, b, c). nat (fst c + 1) + nat (b + 2 - snd c))")
    (auto simp: quarter_next_def Let_def split: prod.splits if_splits)

declare quarter_points.simps [simp del]

definition in_ellipse :: "box \<Rightarrow> point \<Rightarrow> bool" where
  "in_ellipse bx p =
     (case bx of (x0, y0, x1, y1) \<Rightarrow> case p of (x, y) \<Rightarrow>
        (if x0 \<le> x \<and> x \<le> x1 \<and> y0 \<le> y \<and> y \<le> y1 then
           (let a = x1 - x0; b = y1 - y0 in
            case map_of (map (\<lambda>(cx, cy). (cy, cx)) (quarter_points a b (a, b mod 2)))
                   \<bar>2 * (y - y0) - b\<bar> of
              None \<Rightarrow> False
            | Some r \<Rightarrow> \<bar>2 * (x - x0) - a\<bar> \<le> r)
         else False))"

text \<open>The points the walk stays on.\<close>

definition on_walk :: "int \<Rightarrow> int \<Rightarrow> point \<Rightarrow> bool" where
  "on_walk a b c =
     (0 \<le> fst c \<and> fst c \<le> a \<and> fst c mod 2 = a mod 2 \<and>
      0 \<le> snd c \<and> snd c \<le> b \<and> snd c mod 2 = b mod 2)"

text \<open>
  A polygon, idealised: it covers its edges and the points with an odd number of edge
  crossings to their right.
\<close>

definition on_segment :: "point \<Rightarrow> point \<Rightarrow> point \<Rightarrow> bool" where
  "on_segment p q r =
     (case p of (x1, y1) \<Rightarrow> case q of (x2, y2) \<Rightarrow> case r of (x, y) \<Rightarrow>
        (x - x1) * (y2 - y1) = (y - y1) * (x2 - x1) \<and>
        min x1 x2 \<le> x \<and> x \<le> max x1 x2 \<and> min y1 y2 \<le> y \<and> y \<le> max y1 y2)"

definition crosses :: "point \<Rightarrow> point \<Rightarrow> point \<Rightarrow> bool" where
  "crosses p q r =
     (case p of (x1, y1) \<Rightarrow> case q of (x2, y2) \<Rightarrow> case r of (x, y) \<Rightarrow>
        (y1 \<le> y \<and> y < y2 \<and> (x - x1) * (y2 - y1) < (y - y1) * (x2 - x1)) \<or>
        (y2 \<le> y \<and> y < y1 \<and> (x - x2) * (y1 - y2) < (y - y2) * (x1 - x2)))"

definition edges :: "point list \<Rightarrow> (point \<times> point) list" where
  "edges ps = (case ps of [] \<Rightarrow> [] | p # qs \<Rightarrow> zip ps (qs @ [p]))"

definition in_polygon :: "point list \<Rightarrow> point \<Rightarrow> bool" where
  "in_polygon ps r =
     (list_ex (\<lambda>(p, q). on_segment p q r) (edges ps) \<or>
      odd (length (filter (\<lambda>(p, q). crosses p q r) (edges ps))))"

text \<open>
  The coverage of a pixel by one drawing call: all or nothing for a shape, the glyph
  coverage for a text.
\<close>

fun coverage :: "env \<Rightarrow> 'c draw_op \<Rightarrow> point \<Rightarrow> channel" where
  "coverage e (Polygon ps c) p = (if in_polygon ps p then 255 else 0)"
| "coverage e (Rectangle b c) p = (if in_rectangle b p then 255 else 0)"
| "coverage e (Ellipse b c) p = (if in_ellipse b p then 255 else 0)"
| "coverage e (Text (x, y) s c f) p = textmask e f s (fst p - x, snd p - y)"

fun ink :: "'c draw_op \<Rightarrow> 'c" where
  "ink (Polygon ps c) = c"
| "ink (Rectangle b c) = c"
| "ink (Ellipse b c) = c"
| "ink (Text xy s c f) = c"

fun is_text :: "'c draw_op \<Rightarrow> bool" where
  "is_text (Text xy s c f) = True"
| "is_text _ = False"

text \<open>
  Pillow's \<open>DIV255\<close> and \<open>BLEND\<close>: a shape stores its ink, a text mixes its ink into the
  pixel, channel by channel, in proportion to the coverage.
\<close>

definition div255 :: "nat \<Rightarrow> nat" where
  "div255 a = (let tmp = a + 128 in (tmp div 256 + tmp) div 256)"

definition blend :: "channel \<Rightarrow> channel \<Rightarrow> channel \<Rightarrow> channel" where
  "blend m in1 in2 = of_nat (div255 (unat in1 * (255 - unat m) + unat in2 * unat m))"

definition blend_rgba :: "channel \<Rightarrow> rgba \<Rightarrow> rgba \<Rightarrow> rgba" where
  "blend_rgba m old new =
     (case old of (r1, g1, b1, a1) \<Rightarrow> case new of (r2, g2, b2, a2) \<Rightarrow>
        (blend m r1 r2, blend m g1 g2, blend m b1 b2, blend m a1 a2))"

definition paint ::
  "(channel \<Rightarrow> 'c \<Rightarrow> 'c \<Rightarrow> 'c) \<Rightarrow> env \<Rightarrow> point \<Rightarrow> 'c \<Rightarrow> 'c draw_op \<Rightarrow> 'c" where
  "paint bl e p old c =
     (if is_text c then bl (coverage e c p) old (ink c)
      else if coverage e c p = 0 then old else ink c)"

definition rasterise ::
  "(channel \<Rightarrow> 'c \<Rightarrow> 'c \<Rightarrow> 'c) \<Rightarrow> env \<Rightarrow> 'c \<Rightarrow> 'c draw_op list \<Rightarrow> point \<Rightarrow> 'c" where
  "rasterise bl e bg cs p = foldl (paint bl e p) bg cs"

definition mask_getpixel :: "env \<Rightarrow> mask \<Rightarrow> point \<Rightarrow> channel" where
  "mask_getpixel e m p = rasterise blend e (mask_fill m) (mask_calls m) p"

text \<open>\<open>img.getpixel((x, y))\<close>; outside the image Pillow raises \<open>IndexError\<close>.\<close>

definition getpixel :: "env \<Rightarrow> image \<Rightarrow> point \<Rightarrow> rgba option" where
  "getpixel e img p =
     (if 0 \<le> fst p \<and> fst p < width img \<and> 0 \<le> snd p \<and> snd p < height img then
        (case rasterise blend_rgba e (background img) (calls img) p of (r, g, b, a) \<Rightarrow>
           Some (r, g, b, case alpha_band img of None \<Rightarrow> a | Some m \<Rightarrow> mask_getpixel e m p))
      else None)"

definition alpha :: "rgba \<Rightarrow> channel" where
  "alpha c = (case c of (r, g, b, a) \<Rightarrow> a)"

subsection \<open>\<open>create_blockbuster_icon\<close>\<close>

definition blue :: "channel \<times> channel \<times> channel" where
  "blue = (0, 51, 153)"

definition yellow :: "channel \<times> channel \<times> channel" where
  "yellow = (255, 204, 0)"

text \<open>An RGB fill on an RGBA image is opaque: \<open>blue + (255,)\<close>, \<open>fill=yellow\<close>.\<close>

definition opaque :: "channel \<times> channel \<times> channel \<Rightarrow> rgba" where
  "opaque c = (case c of (r, g, b) \<Rightarrow> (r, g, b, 255))"

definition shadow :: rgba where
  "shadow = (0, 0, 0, 128)"

definition border_width :: "int \<Rightarrow> int" where
  "border_width sz = max 2 (sz div 64)"

definition ticket_indent :: "int \<Rightarrow> int" where
  "ticket_indent sz = sz div 8"

definition num_teeth :: "int \<Rightarrow> int" where
  "num_teeth sz = max 8 (sz div 32)"

text \<open>
  \<open>tooth_width = size / num_teeth\<close> and \<open>x = i * tooth_width\<close> are floats in the
  script. A number of the point lists is kept as the expression that computes it: the
  two lists are computed and then never read, so that no value is needed.
\<close>

datatype number = PyInt int | TrueDiv int int | Times int number

definition tooth_width :: "int \<Rightarrow> number" where
  "tooth_width sz = TrueDiv sz (num_teeth sz)"

definition points_top :: "int \<Rightarrow> (number \<times> int) list" where
  "points_top sz =
     map (\<lambda>i. (Times i (tooth_width sz),
                if i mod 2 = 0 then 0 else border_width sz * 2))
         [0..num_teeth sz - 1]
     @ [(PyInt sz, 0)]"

definition points_bottom :: "int \<Rightarrow> (number \<times> int) list" where
  "points_bottom sz =
     map (\<lambda>i. (Times i (tooth_width sz),
                if i mod 2 = 0 then sz else sz - border_width sz * 2))
         [0..num_teeth sz - 1]
     @ [(PyInt sz, sz)]"

text \<open>\<open>range(start, stop, step)\<close> for a positive step.\<close>

definition py_range :: "int \<Rightarrow> int \<Rightarrow> int \<Rightarrow> int list" where
  "py_range start stop step =
     (if step \<le> 0 then []
      else map (\<lambda>k. start + int k * step) [0..<nat ((stop - start + step - 1) div step)])"

text \<open>The two ticket punches (lines 40 to 53).\<close>

definition ticket_punches :: "int \<Rightarrow> rgba draw_op list" where
  "ticket_punches sz =
     (let bw = border_width sz; ti = ticket_indent sz in
      [Polygon [(0, ti), (bw * 3, ti), (bw * 3, ti + sz div 16), (0, ti + sz div 16)]
         (opaque yellow),
       Polygon [(sz - bw * 3, ti), (sz, ti), (sz, ti + sz div 16),
                (sz - bw * 3, ti + sz div 16)]
         (opaque yellow)])"

text \<open>The torn edges at top and bottom (lines 56 to 66).\<close>

definition tear_height :: "int \<Rightarrow> int \<Rightarrow> int" where
  "tear_height sz i = (i mod 2) * border_width sz + border_width sz"

definition torn_edges :: "int \<Rightarrow> rgba draw_op list" where
  "torn_edges sz =
     (if sz \<ge> 64 then
        concat (map (\<lambda>i.
          [Rectangle (i, 0, i + sz div 16, tear_height sz i) (opaque yellow),
           Rectangle (i, sz - tear_height sz i, i + sz div 16, sz) (opaque yellow)])
          (py_range 0 sz (sz div 16)))
      else
        [Rectangle (0, 0, sz, border_width sz) (opaque yellow),
         Rectangle (0, sz - border_width sz, sz, sz) (opaque yellow)])"

text \<open>The left and right borders (lines 69 and 70).\<close>

definition side_borders :: "int \<Rightarrow> rgba draw_op list" where
  "side_borders sz =
     [Rectangle (0, 0, border_width sz * 2, sz) (opaque yellow),
      Rectangle (sz - border_width sz * 2, 0, sz, sz) (opaque yellow)]"

text \<open>
  The font: \<open>ImageFont.truetype\<close> inside \<open>try\<close>, \<open>ImageFont.load_default()\<close> in the
  bare \<open>except\<close>.
\<close>

definition helvetica :: string where
  "helvetica = ''/System/Library/Fonts/Helvetica.ttc''"

definition load_font :: "env \<Rightarrow> int \<Rightarrow> font" where
  "load_font e font_size =
     (if truetype_ok e helvetica font_size then TrueType helvetica font_size
      else DefaultFont)"

text \<open>The text (lines 73 to 124).\<close>

definition text_calls :: "env \<Rightarrow> int \<Rightarrow> rgba draw_op list" where
  "text_calls e sz =
     (if sz \<ge> 128 then
        (let font = load_font e (sz div 8);
             text = ''N64'';
             text_width = (case textbbox e font text of (l, t, r, b) \<Rightarrow> r - l);
             text_height = (case textbbox e font text of (l, t, r, b) \<Rightarrow> b - t);
             text_x = (sz - text_width) div 2;
             text_y = sz div 3
         in [Text (text_x + 2, text_y + 2) text shadow font,
             Text (text_x, text_y) text (opaque yellow) font]
            @ (if sz \<ge> 256 then
                 (let font_small = load_font e (sz div 16);
                      text2 = ''EMULATOR'';
                      text2_width =
                        (case textbbox e font_small text2 of (l, t, r, b) \<Rightarrow> r - l);
                      text2_x = (sz - text2_width) div 2;
                      text2_y = text_y + text_height + sz div 20
                  in [Text (text2_x + 1, text2_y + 1) text2 shadow font_small,
                      Text (text2_x, text2_y) text2 (opaque yellow) font_small])
               else []))
      else if sz \<ge> 32 then
        (let font = load_font e (sz div 4);
             text = ''N64'';
             text_width = (case textbbox e font text of (l, t, r, b) \<Rightarrow> r - l);
             text_height = (case textbbox e font text of (l, t, r, b) \<Rightarrow> b - t);
             text_x = (sz - text_width) div 2;
             text_y = (sz - text_height) div 2
         in [Text (text_x, text_y) text (opaque yellow) font])
      else [])"

text \<open>The drawing on the mask of the rounded corners (lines 132 to 138).\<close>

definition round_corners :: "int \<Rightarrow> mask \<Rightarrow> mask" where
  "round_corners sz m =
     (let radius = sz div 8;
          m = mask_draw [Rectangle (0, 0, sz, sz) 255] m;
          m = mask_draw [Ellipse (0, 0, radius * 2, radius * 2) 0] m;
          m = mask_draw [Ellipse (sz - radius * 2, 0, sz, radius * 2) 0] m;
          m = mask_draw [Ellipse (0, sz - radius * 2, radius * 2, sz) 0] m;
          m = mask_draw [Ellipse (sz - radius * 2, sz - radius * 2, sz, sz) 0] m
      in m)"

definition create_blockbuster_icon :: "env \<Rightarrow> int \<Rightarrow> error + image" where
  "create_blockbuster_icon e sz =
     (case Image_new e sz (opaque blue) of
        Inl err \<Rightarrow> Inl err
      | Inr img \<Rightarrow>
          (let points_top = points_top sz;
               points_bottom = points_bottom sz;
               img = draw (ticket_punches sz) img;
               img = draw (torn_edges sz) img;
               img = draw (side_borders sz) img;
               img = draw (text_calls e sz) img
           in if sz \<ge> 64 then
                (case Image_new_L e sz 255 of
                   Inl err \<Rightarrow> Inl err
                 | Inr m \<Rightarrow> Inr (putalpha (round_corners sz m) img))
              else Inr img))"

text \<open>
  The same function with the two point lists left out: \<open>points_top\<close> and
  \<open>points_bottom\<close> are the only difference.
\<close>

definition create_blockbuster_icon_without_points :: "env \<Rightarrow> int \<Rightarrow> error + image" where
  "create_blockbuster_icon_without_points e sz =
     (case Image_new e sz (opaque blue) of
        Inl err \<Rightarrow> Inl err
      | Inr img \<Rightarrow>
          (let img = draw (ticket_punches sz) img;
               img = draw (torn_edges sz) img;
               img = draw (side_borders sz) img;
               img = draw (text_calls e sz) img
           in if sz \<ge> 64 then
                (case Image_new_L e sz 255 of
                   Inl err \<Rightarrow> Inl err
                 | Inr m \<Rightarrow> Inr (putalpha (round_corners sz m) img))
              else Inr img))"

subsection \<open>The file system and the process\<close>

text \<open>
  The world \<open>main\<close> runs in: the directories and the regular files that exist, by
  path relative to the working directory, and the trace of the effects performed so far,
  oldest first. Standard output is part of the trace, a message being the bytes written.
  What the external command does to the file system is outside the model: \<open>os.system\<close>
  only records the command.
\<close>

datatype content = PngImage image | TextFile string

datatype event =
    Makedirs string
  | Wrote string content
  | Print string
  | System string

record world =
  dirs :: "string list"
  files :: "(string \<times> content) list"
  trace :: "event list"

definition sep :: char where
  "sep = CHR ''/''"

definition isdir :: "world \<Rightarrow> string \<Rightarrow> bool" where
  "isdir w p = (p = [] \<or> p \<in> set (dirs w))"

definition isfile :: "world \<Rightarrow> string \<Rightarrow> bool" where
  "isfile w p = (p \<in> set (map fst (files w)))"

text \<open>\<open>os.path.dirname\<close> and \<open>os.path.join\<close> of \<open>posixpath\<close>.\<close>

definition dirname :: "string \<Rightarrow> string" where
  "dirname p =
     (let head = rev (dropWhile (\<lambda>c. c \<noteq> sep) (rev p)) in
      if head \<noteq> [] \<and> \<not> list_all (\<lambda>c. c = sep) head
      then rev (dropWhile (\<lambda>c. c = sep) (rev head)) else head)"

definition path_join :: "string \<Rightarrow> string \<Rightarrow> string" where
  "path_join a b =
     (if b \<noteq> [] \<and> hd b = sep then b
      else if a = [] \<or> last a = sep then a @ b
      else a @ [sep] @ b)"

text \<open>
  A sequence of statements, each of which may raise: the first error ends the run.
\<close>

fun run_all :: "(world \<Rightarrow> error + world) list \<Rightarrow> world \<Rightarrow> error + world" where
  "run_all [] w = Inr w"
| "run_all (s # ss) w = (case s w of Inl err \<Rightarrow> Inl err | Inr w' \<Rightarrow> run_all ss w')"

definition log :: "event \<Rightarrow> world \<Rightarrow> error + world" where
  "log ev w = Inr (w\<lparr>trace := trace w @ [ev]\<rparr>)"

text \<open>
  \<open>os.makedirs(name, exist_ok=True)\<close> creates the missing directories from the
  outermost ancestor down to \<open>name\<close>. A directory that exists is left alone; a regular
  file in the way raises.
\<close>

definition ancestors :: "string \<Rightarrow> string list" where
  "ancestors p = map (\<lambda>i. take i p) (filter (\<lambda>i. 0 < i \<and> p ! i = sep) [0..<length p])"

definition mkdir_exist_ok :: "string \<Rightarrow> string \<Rightarrow> world \<Rightarrow> error + world" where
  "mkdir_exist_ok name d w =
     (if isdir w d then Inr w
      else if isfile w d then
        Inl (if d = name then FileExistsError d else NotADirectoryError name)
      else Inr (w\<lparr>dirs := dirs w @ [d]\<rparr>))"

definition makedirs_exist_ok :: "string \<Rightarrow> world \<Rightarrow> error + world" where
  "makedirs_exist_ok name =
     run_all (map (mkdir_exist_ok name) (ancestors name @ [name]) @ [log (Makedirs name)])"

text \<open>
  Opening a path for writing and storing the content, as \<open>open(path, 'w')\<close> with
  \<open>f.write\<close> and as \<open>icon.save(path, 'PNG')\<close> do: an existing file is replaced.
\<close>

definition write_file :: "string \<Rightarrow> content \<Rightarrow> world \<Rightarrow> error + world" where
  "write_file p c w =
     (if isdir w p then Inl (IsADirectoryError p)
      else if \<not> isdir w (dirname p) then Inl (FileNotFoundError p)
      else Inr (w\<lparr>files := AList.update p c (files w), trace := trace w @ [Wrote p c]\<rparr>))"

definition Image_save :: "image \<Rightarrow> string \<Rightarrow> world \<Rightarrow> error + world" where
  "Image_save img filepath = write_file filepath (PngImage img)"

definition print :: "string \<Rightarrow> world \<Rightarrow> error + world" where
  "print msg = log (Print msg)"

definition os_system :: "string \<Rightarrow> world \<Rightarrow> error + world" where
  "os_system cmd = log (System cmd)"

text \<open>\<open>str(i)\<close>, the decimal digits an f-string inserts for an integer.\<close>

fun str_nat :: "nat \<Rightarrow> string" where
  "str_nat n =
     (if n < 10 then [''0123456789'' ! n]
      else str_nat (n div 10) @ [''0123456789'' ! (n mod 10)])"

declare str_nat.simps [simp del]

definition str :: "int \<Rightarrow> string" where
  "str i = (if i < 0 then CHR ''-'' # str_nat (nat (- i)) else str_nat (nat i))"

text \<open>The three emoji of the messages, in UTF-8.\<close>

definition check_mark :: string where
  "check_mark = [CHR 0xE2, CHR 0x9C, CHR 0x85]"

definition party_popper :: string where
  "party_popper = [CHR 0xF0, CHR 0x9F, CHR 0x8E, CHR 0x89]"

definition package :: string where
  "package = [CHR 0xF0, CHR 0x9F, CHR 0x93, CHR 0xA6]"

definition newline :: char where
  "newline = CHR 0x0A"

definition lines_text :: "string list \<Rightarrow> string" where
  "lines_text ls = concat (map (\<lambda>l. l @ [newline]) ls)"

subsection \<open>\<open>main\<close>\<close>

definition output_dir :: string where
  "output_dir = ''Resources/AppIcon.appiconset''"

definition sizes :: "int list" where
  "sizes = [16, 32, 64, 128, 256, 512, 1024]"

definition icon_filename :: "int \<Rightarrow> string" where
  "icon_filename sz = ''icon_'' @ str sz @ ''x'' @ str sz @ ''.png''"

definition icon_filename_2x :: "int \<Rightarrow> string" where
  "icon_filename_2x sz = ''icon_'' @ str sz @ ''x'' @ str sz @ ''@2x.png''"

definition render_and_save :: "env \<Rightarrow> int \<Rightarrow> string \<Rightarrow> world \<Rightarrow> error + world" where
  "render_and_save e sz filepath w =
     (case create_blockbuster_icon e sz of
        Inl err \<Rightarrow> Inl err
      | Inr icon \<Rightarrow> Image_save icon filepath w)"

text \<open>The body of the loop over the sizes (lines 157 to 169).\<close>

definition icon_steps :: "env \<Rightarrow> int \<Rightarrow> (world \<Rightarrow> error + world) list" where
  "icon_steps e sz =
     (let filename = icon_filename sz;
          filepath = path_join output_dir filename
      in [render_and_save e sz filepath,
          print (check_mark @ '' Created '' @ filename)]
         @ (if sz \<le> 512 then
              (let filename_2x = icon_filename_2x sz;
                   filepath_2x = path_join output_dir filename_2x
               in [render_and_save e (sz * 2) filepath_2x,
                   print (check_mark @ '' Created '' @ filename_2x)])
            else []))"

text \<open>The manifest, the literal of lines 172 to 240: every line ends with a newline.\<close>

definition contents_json :: string where
  \<open>contents_json =
    lines_text
     [''{'',
      ''  "images" : ['',
      ''    {'',
      ''      "filename" : "icon_16x16.png",'',
      ''      "idiom" : "mac",'',
      ''      "scale" : "1x",'',
      ''      "size" : "16x16"'',
      ''    },'',
      ''    {'',
      ''      "filename" : "icon_16x16@2x.png",'',
      ''      "idiom" : "mac",'',
      ''      "scale" : "2x",'',
      ''      "size" : "16x16"'',
      ''    },'',
      ''    {'',
      ''      "filename" : "icon_32x32.png",'',
      ''      "idiom" : "mac",'',
      ''      "scale" : "1x",'',
      ''      "size" : "32x32"'',
      ''    },'',
      ''    {'',
      ''      "filename" : "icon_32x32@2x.png",'',
      ''      "idiom" : "mac",'',
      ''      "scale" : "2x",'',
      ''      "size" : "32x32"'',
      ''    },'',
      ''    {'',
      ''      "filename" : "icon_128x128.png",'',
      ''      "idiom" : "mac",'',
      ''      "scale" : "1x",'',
      ''      "size" : "128x128"'',
      ''    },'',
      ''    {'',
      ''      "filename" : "icon_128x128@2x.png",'',
      ''      "idiom" : "mac",'',
      ''      "scale" : "2x",'',
      ''      "size" : "128x128"'',
      ''    },'',
      ''    {'',
      ''      "filename" : "icon_256x256.png",'',
      ''      "idiom" : "mac",'',
      ''      "scale" : "1x",'',
      ''      "size" : "256x256"'',
      ''    },'',
      ''    {'',
      ''      "filename" : "icon_256x256@2x.png",'',
      ''      "idiom" : "mac",'',
      ''      "scale" : "2x",'',
      ''      "size" : "256x256"'',
      ''    },'',
      ''    {'',
      ''      "filename" : "icon_512x512.png",'',
      ''      "idiom" : "mac",'',
      ''      "scale" : "1x",'',
      ''      "size" : "512x512"'',
      ''    },'',
      ''    {'',
      ''      "filename" : "icon_512x512@2x.png",'',
      ''      "idiom" : "mac",'',
      ''      "scale" : "2x",'',
      ''      "size" : "512x512"'',
      ''    }'',
      ''  ],'',
      ''  "info" : {'',
      ''    "author" : "xcode",'',
      ''    "version" : 1'',
      ''  }'',
      ''}'']\<close>

definition main :: "env \<Rightarrow> world \<Rightarrow> error + world" where
  "main e =
     run_all
      ([makedirs_exist_ok output_dir,
        print ''Generating Blockbuster-style icons...'']
       @ concat (map (icon_steps e) sizes)
       @ [write_file (path_join output_dir ''Contents.json'') (TextFile contents_json),
          print (check_mark @ '' Created Contents.json''),
          print (newline # ''Generating .icns file...''),
          os_system ''cd Resources && iconutil -c icns AppIcon.appiconset -o AppIcon.icns'',
          print (check_mark @ '' Created AppIcon.icns''),
          print (newline # party_popper
                 @ '' Icon set complete! Files created in Resources/AppIcon.appiconset/''),
          print (package @ '' To use in your app, add AppIcon.icns to your Xcode project.'')])"

subsection \<open>Observations\<close>

text \<open>
  A sample machine: no Helvetica, a fixed-pitch default font whose glyphs fill a box of
  6 by 11 pixels, and memory for images of up to 4096 by 4096 pixels. And a sample
  world: an empty working directory.
\<close>

definition sample_env :: env where
  "sample_env =
     \<lparr>truetype_ok = (\<lambda>path sz. False),
      textbbox = (\<lambda>f s. (0, 0, 6 * int (length s), 11)),
      textmask = (\<lambda>f s p.
        if in_rectangle (0, 0, 6 * int (length s) - 1, 10) p then 255 else 0),
      can_allocate = (\<lambda>mode w h. w \<le> 4096 \<and> h \<le> 4096)\<rparr>"

definition empty_world :: world where
  "empty_world = \<lparr>dirs = [], files = [], trace = []\<rparr>"

text \<open>
  The icon of a size, its drawing calls, the alpha value of one of its pixels, and the
  mask of the icons from 64 pixels.
\<close>

definition corner_mask :: "int \<Rightarrow> mask" where
  "corner_mask sz =
     round_corners sz \<lparr>mask_width = sz, mask_height = sz, mask_fill = 255, mask_calls = []\<rparr>"

definition icon :: "env \<Rightarrow> int \<Rightarrow> image" where
  "icon e sz = projr (create_blockbuster_icon e sz)"

definition icon_calls :: "env \<Rightarrow> int \<Rightarrow> rgba draw_op list" where
  "icon_calls e sz =
     (case create_blockbuster_icon e sz of Inl err \<Rightarrow> [] | Inr img \<Rightarrow> calls img)"

definition icon_alpha :: "env \<Rightarrow> int \<Rightarrow> point \<Rightarrow> channel option" where
  "icon_alpha e sz p =
     (case create_blockbuster_icon e sz of
        Inl err \<Rightarrow> None
      | Inr img \<Rightarrow> map_option alpha (getpixel e img p))"

text \<open>
  The two images the function asks for, the canvas and from 64 pixels the mask, can be
  made.
\<close>

definition images_fit :: "env \<Rightarrow> int \<Rightarrow> bool" where
  "images_fit e sz =
     (Image_new_error e ''RGBA'' sz = None \<and> (sz < 64 \<or> Image_new_error e ''L'' sz = None))"

definition corners :: "int \<Rightarrow> point list" where
  "corners sz = [(0, 0), (sz - 1, 0), (0, sz - 1), (sz - 1, sz - 1)]"

text \<open>
  A label is a text drawn in yellow; it has a shadow at offset \<open>d\<close> when the same
  text is also drawn in the shadow colour, in the same font, \<open>d\<close> pixels to the right
  and \<open>d\<close> pixels down.
\<close>

fun is_label :: "rgba draw_op \<Rightarrow> bool" where
  "is_label (Text xy s c f) = (c = opaque yellow)"
| "is_label _ = False"

fun label_text :: "rgba draw_op \<Rightarrow> string" where
  "label_text (Text xy s c f) = s"
| "label_text _ = []"

fun shadowed_at :: "int \<Rightarrow> rgba draw_op list \<Rightarrow> rgba draw_op \<Rightarrow> bool" where
  "shadowed_at d cs (Text (x, y) s c f) = (Text (x + d, y + d) s shadow f \<in> set cs)"
| "shadowed_at d cs _ = False"

definition unshadowed_labels :: "int \<Rightarrow> rgba draw_op list \<Rightarrow> rgba draw_op list" where
  "unshadowed_labels d cs = filter (\<lambda>lbl. is_label lbl \<and> \<not> shadowed_at d cs lbl) cs"

definition well_formed_bbox :: "box \<Rightarrow> bool" where
  "well_formed_bbox bb = (case bb of (l, t, r, b) \<Rightarrow> l \<le> r \<and> t \<le> b)"

text \<open>
  The files a run writes, in order, are the \<open>Wrote\<close> events it adds to the trace.
\<close>

fun written :: "event list \<Rightarrow> (string \<times> content) list" where
  "written [] = []"
| "written (Wrote p c # evs) = (p, c) # written evs"
| "written (ev # evs) = written evs"

definition new_events :: "world \<Rightarrow> world \<Rightarrow> event list" where
  "new_events w w' = drop (length (trace w)) (trace w')"

definition run_names :: "env \<Rightarrow> world \<Rightarrow> string list" where
  "run_names e w =
     (case main e w of Inl err \<Rightarrow> [] | Inr w' \<Rightarrow> map fst (written (new_events w w')))"

definition ends_with :: "string \<Rightarrow> string \<Rightarrow> bool" where
  "ends_with suffix s =
     (length suffix \<le> length s \<and> drop (length s - length suffix) s = suffix)"

definition double_density :: "string \<Rightarrow> bool" where
  "double_density p = ends_with ''@2x.png'' p"

definition standard_density :: "string \<Rightarrow> bool" where
  "standard_density p = (ends_with ''.png'' p \<and> \<not> ends_with ''@2x.png'' p)"

definition manifest_document :: "string \<Rightarrow> bool" where
  "manifest_document p = ends_with ''Contents.json'' p"

definition written_before :: "string \<Rightarrow> string list \<Rightarrow> string list" where
  "written_before p names = takeWhile (\<lambda>q. q \<noteq> p) names"

text \<open>
  The file names a manifest refers to: on each line that starts, after its indentation,
  with the key \<open>"filename" : "\<close>, the characters up to the closing quote.
\<close>

definition filename_key :: string where
  \<open>filename_key = ''"filename" : "''\<close>

definition split_lines :: "string \<Rightarrow> string list" where
  "split_lines s =
     foldr (\<lambda>c acc. if c = newline then [] # acc
                    else (case acc of [] \<Rightarrow> [[c]] | l # ls \<Rightarrow> (c # l) # ls)) s []"

definition line_filename :: "string \<Rightarrow> string list" where
  "line_filename l =
     (let t = dropWhile (\<lambda>c. c = CHR '' '') l in
      if take (length filename_key) t = filename_key
      then [takeWhile (\<lambda>c. c \<noteq> CHR 0x22) (drop (length filename_key) t)]
      else [])"

definition manifest_filenames :: "string \<Rightarrow> string list" where
  "manifest_filenames text = concat (map line_filename (split_lines text))"

text \<open>
  Two summaries of a statement, for reasoning about sequences of statements: the files
  it writes when it returns, and that it leaves the directories alone and returns or
  raises according to the directories only.
\<close>

definition performs :: "(world \<Rightarrow> error + world) \<Rightarrow> (string \<times> content) list \<Rightarrow> bool" where
  "performs s pcs =
     (\<forall>w w'. s w = Inr w' \<longrightarrow>
        (\<exists>evs. trace w' = trace w @ evs \<and> written evs = pcs) \<and>
        files w' = fold (\<lambda>(p, c). AList.update p c) pcs (files w))"

definition steady :: "(world \<Rightarrow> error + world) \<Rightarrow> bool" where
  "steady s =
     (\<forall>w w'. s w = Inr w' \<longrightarrow>
        dirs w' = dirs w \<and> (\<forall>v. dirs v = dirs w \<longrightarrow> (\<exists>v'. s v = Inr v')))"

section \<open>Properties\<close>

subsection \<open>Proportions\<close>

text \<open>
  C8. For every positive size the border thickness is at least 2 pixels and the tooth
  count at least 8, being \<open>max(2, size // 64)\<close> and \<open>max(8, size // 32)\<close>.
\<close>

theorem C8_minimum_border_and_teeth:
  "0 < sz \<Longrightarrow>
     border_width sz \<ge> 2 \<and> num_teeth sz \<ge> 8 \<and>
     border_width sz = max 2 (sz div 64) \<and> num_teeth sz = max 8 (sz div 32)"
  by (simp add: border_width_def num_teeth_def)

theorem C8_minimum_border_and_teeth_witness:
  "(0::int) < 1024 \<and> border_width 1024 = 16 \<and> num_teeth 1024 = 32 \<and>
   border_width 16 = 2 \<and> num_teeth 16 = 8"
  using C8_minimum_border_and_teeth [of 1024] C8_minimum_border_and_teeth [of 16]
  by simp

subsection \<open>The image returned\<close>

text \<open>
  The function returns exactly when the two images can be made, and then the image has
  the size asked for, the calls of the four drawing steps in order, and the corner mask
  from 64 pixels.
\<close>

lemma Image_new_error_small:
  "0 \<le> sz \<Longrightarrow> sz \<le> 1024 \<Longrightarrow> Image_new_error e mode sz = None"
  by (simp add: Image_new_error_def INT_MAX_def)

lemma images_fit_small: "0 \<le> sz \<Longrightarrow> sz \<le> 1024 \<Longrightarrow> images_fit e sz"
  by (simp add: images_fit_def Image_new_error_small)

lemma create_blockbuster_icon_returns:
  "images_fit e sz \<Longrightarrow>
     create_blockbuster_icon e sz =
       Inr \<lparr>width = sz, height = sz, background = opaque blue,
            calls = ticket_punches sz @ torn_edges sz @ side_borders sz @ text_calls e sz,
            alpha_band = (if sz \<ge> 64 then Some (corner_mask sz) else None)\<rparr>"
  by (auto simp: images_fit_def create_blockbuster_icon_def Image_new_def Image_new_L_def
      corner_mask_def draw_def putalpha_def Let_def)

lemma create_blockbuster_icon_raises:
  "\<not> images_fit e sz \<Longrightarrow> \<exists>err. create_blockbuster_icon e sz = Inl err"
  by (auto simp: images_fit_def create_blockbuster_icon_def Image_new_def Image_new_L_def
      Let_def split: option.splits)

lemma create_blockbuster_icon_returned:
  assumes "create_blockbuster_icon e sz = Inr img"
  shows "images_fit e sz"
    and "img = \<lparr>width = sz, height = sz, background = opaque blue,
            calls = ticket_punches sz @ torn_edges sz @ side_borders sz @ text_calls e sz,
            alpha_band = (if sz \<ge> 64 then Some (corner_mask sz) else None)\<rparr>"
proof -
  show fit: "images_fit e sz"
    using assms create_blockbuster_icon_raises [of e sz] by auto
  from create_blockbuster_icon_returns [OF fit] assms
  show "img = \<lparr>width = sz, height = sz, background = opaque blue,
            calls = ticket_punches sz @ torn_edges sz @ side_borders sz @ text_calls e sz,
            alpha_band = (if sz \<ge> 64 then Some (corner_mask sz) else None)\<rparr>"
    by simp
qed

lemma create_blockbuster_icon_eq:
  "0 \<le> sz \<Longrightarrow> sz \<le> 1024 \<Longrightarrow>
     create_blockbuster_icon e sz =
       Inr \<lparr>width = sz, height = sz, background = opaque blue,
            calls = ticket_punches sz @ torn_edges sz @ side_borders sz @ text_calls e sz,
            alpha_band = (if sz \<ge> 64 then Some (corner_mask sz) else None)\<rparr>"
  by (rule create_blockbuster_icon_returns) (rule images_fit_small)

lemma create_blockbuster_icon_negative:
  "sz < 0 \<Longrightarrow> create_blockbuster_icon e sz = Inl ValueError"
  by (simp add: create_blockbuster_icon_def Image_new_def Image_new_error_def)

lemma icon_calls_eq:
  "0 \<le> sz \<Longrightarrow> sz \<le> 1024 \<Longrightarrow>
     icon_calls e sz = ticket_punches sz @ torn_edges sz @ side_borders sz @ text_calls e sz"
  by (simp add: icon_calls_def create_blockbuster_icon_eq)

text \<open>
  C4, as the code has it. For a positive size the function returns exactly when the
  canvas and, from 64 pixels, the mask can be made, which they cannot for a size beyond
  \<open>INT_MAX / 4 - 1\<close> or beyond the memory of the machine; an image it returns has
  width and height equal to the size.
\<close>

theorem C4_dimensions:
  assumes "0 < sz"
  shows "((\<exists>img. create_blockbuster_icon e sz = Inr img) \<longleftrightarrow> images_fit e sz) \<and>
         (\<forall>img. create_blockbuster_icon e sz = Inr img \<longrightarrow> width img = sz \<and> height img = sz)"
proof -
  have "(\<exists>img. create_blockbuster_icon e sz = Inr img) \<longleftrightarrow> images_fit e sz"
    using create_blockbuster_icon_returned(1) [of e sz] create_blockbuster_icon_returns [of e sz]
    by blast
  moreover have "width img = sz \<and> height img = sz"
    if "create_blockbuster_icon e sz = Inr img" for img
    by (subst (1 2) create_blockbuster_icon_returned(2) [OF that]) simp
  ultimately show ?thesis by blast
qed

theorem C4_dimensions_witness:
  "(0::int) < 2048 \<and> images_fit sample_env 2048 \<and>
   (\<exists>img. create_blockbuster_icon sample_env 2048 = Inr img \<and>
      width img = 2048 \<and> height img = 2048)"
proof -
  have pos: "(0::int) < 2048" by simp
  have fit: "images_fit sample_env 2048"
    by (simp add: images_fit_def Image_new_error_def INT_MAX_def sample_env_def)
  note th = C4_dimensions [OF pos, where e = sample_env]
  from th fit obtain img where img: "create_blockbuster_icon sample_env 2048 = Inr img"
    by auto
  from th img have "width img = 2048 \<and> height img = 2048" by blast
  with pos fit img show ?thesis by blast
qed

text \<open>
  C4, as stated, fails at the size \<open>2 ^ 31\<close>, the first that does not fit a C
  \<open>int\<close>: the function raises \<open>OverflowError\<close> and returns no image.
\<close>

theorem C4_every_positive_size_counterexample:
  "create_blockbuster_icon sample_env 2147483648 = Inl OverflowError"
  by (simp add: create_blockbuster_icon_def Image_new_def Image_new_error_def INT_MAX_def)

subsection \<open>The point lists and the torn edges\<close>

text \<open>
  The point lists \<open>points_top\<close> and \<open>points_bottom\<close> reach no drawing call: the
  function returns what the function without them returns.
\<close>

lemma points_unused:
  "create_blockbuster_icon e sz = create_blockbuster_icon_without_points e sz"
  by (simp add: create_blockbuster_icon_def create_blockbuster_icon_without_points_def
      Let_def split: sum.splits)

text \<open>
  The loop of the torn edges runs over \<open>range(0, size, size // 16)\<close>, and the height
  of a tear is \<open>(i % 2) * border_width + border_width\<close> for the position \<open>i\<close>
  itself, not for its index. Where the step is even every position is even and every
  tear has the height \<open>border_width\<close>.
\<close>

lemma py_range_multiple:
  "i \<in> set (py_range 0 stop step) \<Longrightarrow> i mod step = 0"
  by (auto simp: py_range_def split: if_splits)

lemma tear_height_even_step:
  assumes "even (sz div 16)" and "i \<in> set (py_range 0 sz (sz div 16))"
  shows "tear_height sz i = border_width sz"
proof -
  from py_range_multiple [OF assms(2)] have "sz div 16 dvd i" by (simp add: dvd_eq_mod_eq_0)
  with assms(1) have "even i" by (rule dvd_trans)
  then show ?thesis by (simp add: tear_height_def)
qed

text \<open>
  C10, the torn edges. At every size from 64 on that \<open>main\<close> renders, the calls of the
  torn edges are sixteen pairs of rectangles that all have the height
  \<open>border_width\<close>: the top and the bottom edge are flat bars, and no jagged effect is
  drawn.
\<close>

theorem C10_tears_do_not_alternate:
  "list_all
     (\<lambda>sz. torn_edges sz =
        concat (map (\<lambda>i.
          [Rectangle (i, 0, i + sz div 16, border_width sz) (opaque yellow),
           Rectangle (i, sz - border_width sz, i + sz div 16, sz) (opaque yellow)])
          (map (\<lambda>k. k * (sz div 16)) [0, 1, 2, 3, 4, 5, 6, 7, 8, 9, 10, 11, 12, 13, 14, 15])))
     [64, 128, 256, 512, 1024]"
  by (simp add: torn_edges_def tear_height_def py_range_def upt_conv_Cons border_width_def)

subsection \<open>The walk around the ellipse\<close>

text \<open>
  On the top row the step to the left deviates least, so the walk stays within the
  quarter and ends at \<open>(a mod 2, b)\<close>.
\<close>

lemma quarter_next_top:
  assumes "2 \<le> cx" and "cx \<le> a" and "0 \<le> b"
  shows "quarter_next a b (cx, b) = (cx - 2, b)"
proof -
  have a2: "0 < a * a" using assms by (simp add: zero_less_mult_iff)
  have b2: "0 \<le> b * b" by simp
  have up: "0 < a * a * (4 * b + 4)" using a2 assms(3) by (simp add: zero_less_mult_iff)
  have d1: "quarter_delta a b cx (b + 2) = a * a * (4 * b + 4) + b * b * (cx * cx)"
  proof -
    have "a * a * ((b + 2) * (b + 2)) + b * b * (cx * cx) - a * a * (b * b) =
        a * a * (4 * b + 4) + b * b * (cx * cx)"
      by (simp add: algebra_simps)
    moreover have "0 \<le> a * a * (4 * b + 4) + b * b * (cx * cx)"
      using up by (simp add: add_nonneg_nonneg less_imp_le)
    ultimately show ?thesis by (simp add: quarter_delta_def)
  qed
  have d2: "quarter_delta a b (cx - 2) (b + 2) =
      a * a * (4 * b + 4) + b * b * ((cx - 2) * (cx - 2))"
  proof -
    have "a * a * ((b + 2) * (b + 2)) + b * b * ((cx - 2) * (cx - 2)) - a * a * (b * b) =
        a * a * (4 * b + 4) + b * b * ((cx - 2) * (cx - 2))"
      by (simp add: algebra_simps)
    moreover have "0 \<le> a * a * (4 * b + 4) + b * b * ((cx - 2) * (cx - 2))"
      using up by (simp add: add_nonneg_nonneg less_imp_le)
    ultimately show ?thesis by (simp add: quarter_delta_def)
  qed
  have d3: "quarter_delta a b (cx - 2) b = b * b * ((cx - 2) * (cx - 2))"
    by (simp add: quarter_delta_def)
  have sq: "(cx - 2) * (cx - 2) \<le> cx * cx"
    using assms(1) by (simp add: algebra_simps)
  have le: "b * b * ((cx - 2) * (cx - 2)) \<le> b * b * (cx * cx)"
    using sq b2 by (rule mult_left_mono)
  have lt2: "quarter_delta a b (cx - 2) b < quarter_delta a b (cx - 2) (b + 2)"
    using up by (simp add: d2 d3)
  have lt1: "quarter_delta a b (cx - 2) b < quarter_delta a b cx (b + 2)"
    using up le by (simp add: d1 d3)
  from assms(1) have "cx > 1" by simp
  with lt1 lt2 show ?thesis
    by (simp add: quarter_next_def Let_def)
qed

lemma quarter_next_cases:
  "quarter_next a b (cx, cy) = (cx, cy + 2) \<or>
   1 < cx \<and> (quarter_next a b (cx, cy) = (cx - 2, cy + 2) \<or>
            quarter_next a b (cx, cy) = (cx - 2, cy))"
  by (simp add: quarter_next_def Let_def)

lemma quarter_next_on_walk:
  assumes "on_walk a b c" and "\<not> (fst c = a mod 2 \<and> snd c = b)"
  shows "on_walk a b (quarter_next a b c)"
proof (cases "snd c = b")
  case True
  with assms have "fst c \<noteq> a mod 2" by simp
  with assms(1) have "2 \<le> fst c"
    unfolding on_walk_def by presburger
  moreover from assms(1) have "fst c \<le> a" "0 \<le> b" by (auto simp: on_walk_def)
  ultimately have "quarter_next a b (fst c, b) = (fst c - 2, b)"
    by (rule quarter_next_top)
  with True have "quarter_next a b c = (fst c - 2, b)"
    by (cases c) simp
  with assms(1) \<open>2 \<le> fst c\<close> show ?thesis
    unfolding on_walk_def by (simp add: mod_diff_right_eq)
next
  case False
  with assms(1) have "snd c + 2 \<le> b"
    unfolding on_walk_def by presburger
  obtain cx cy where c: "c = (cx, cy)" by (cases c)
  from assms(1) c \<open>snd c + 2 \<le> b\<close> have
    up: "on_walk a b (cx, cy + 2)"
    and left: "1 < cx \<Longrightarrow> on_walk a b (cx - 2, cy + 2) \<and> on_walk a b (cx - 2, cy)"
    unfolding on_walk_def by (simp_all add: mod_diff_right_eq mod_add_right_eq)
  from quarter_next_cases [of a b cx cy] up left show ?thesis
    unfolding c by auto
qed

lemma quarter_points_on_walk:
  "on_walk a b c \<Longrightarrow> \<forall>c' \<in> set (quarter_points a b c). on_walk a b c'"
proof (induction a b c rule: quarter_points.induct)
  case (1 a b c)
  show ?case
  proof (cases "(fst c = a mod 2 \<and> snd c = b) \<or> b < snd c")
    case True
    with "1.prems" show ?thesis by (subst quarter_points.simps) simp
  next
    case False
    with "1.prems" have "on_walk a b (quarter_next a b c)"
      by (auto intro: quarter_next_on_walk)
    with "1.IH" False have "\<forall>c' \<in> set (quarter_points a b (quarter_next a b c)). on_walk a b c'"
      by blast
    with "1.prems" False show ?thesis by (subst quarter_points.simps) simp
  qed
qed

lemma quarter_points_last:
  "on_walk a b c \<Longrightarrow> last (quarter_points a b c) = (a mod 2, b)"
proof (induction a b c rule: quarter_points.induct)
  case (1 a b c)
  show ?case
  proof (cases "(fst c = a mod 2 \<and> snd c = b) \<or> b < snd c")
    case True
    with "1.prems" have "fst c = a mod 2 \<and> snd c = b" by (auto simp: on_walk_def)
    with True show ?thesis by (subst quarter_points.simps) (cases c, simp)
  next
    case False
    with "1.prems" have "on_walk a b (quarter_next a b c)"
      by (auto intro: quarter_next_on_walk)
    with "1.IH" False have "last (quarter_points a b (quarter_next a b c)) = (a mod 2, b)"
      by blast
    moreover have "quarter_points a b (quarter_next a b c) \<noteq> []"
      by (subst quarter_points.simps) simp
    ultimately show ?thesis using False by (subst quarter_points.simps) auto
  qed
qed

lemma walk_ends:
  assumes "0 \<le> a" and "0 \<le> b"
  shows "last (quarter_points a b (a, b mod 2)) = (a mod 2, b)"
    and "\<forall>c \<in> set (quarter_points a b (a, b mod 2)). snd c \<le> b"
proof -
  from assms have start: "on_walk a b (a, b mod 2)"
    unfolding on_walk_def by simp presburger
  from quarter_points_last [OF start]
  show "last (quarter_points a b (a, b mod 2)) = (a mod 2, b)" .
  from quarter_points_on_walk [OF start]
  show "\<forall>c \<in> set (quarter_points a b (a, b mod 2)). snd c \<le> b"
    by (simp add: on_walk_def)
qed

subsection \<open>Rasterising a sequence of calls\<close>

lemma rasterise_Nil: "rasterise bl e bg [] p = bg"
  by (simp add: rasterise_def)

lemma rasterise_Cons:
  "rasterise bl e bg (c # cs) p = rasterise bl e (paint bl e p bg c) cs p"
  by (simp add: rasterise_def)

lemma rasterise_snoc:
  "rasterise bl e bg (cs @ [c]) p = paint bl e p (rasterise bl e bg cs p) c"
  by (simp add: rasterise_def)

lemma paint_shape:
  "\<not> is_text c \<Longrightarrow> paint bl e p old c = old \<or> paint bl e p old c = ink c"
  by (simp add: paint_def)

text \<open>Shapes of one colour leave every pixel in the background or in that colour.\<close>

lemma rasterise_palette:
  "\<forall>c \<in> set cs. \<not> is_text c \<and> ink c = y \<Longrightarrow>
     rasterise bl e bg cs p = bg \<or> rasterise bl e bg cs p = y"
proof (induction cs rule: rev_induct)
  case Nil
  show ?case by (simp add: rasterise_Nil)
next
  case (snoc c cs)
  then have ih: "rasterise bl e bg cs p = bg \<or> rasterise bl e bg cs p = y"
    and c: "\<not> is_text c" "ink c = y"
    by simp_all
  from paint_shape [OF c(1), of bl e p "rasterise bl e bg cs p"] ih c(2)
  show ?case by (auto simp: rasterise_snoc)
qed

text \<open>Mixing an opaque ink into an opaque pixel leaves it opaque.\<close>

lemma blend_opaque: "blend m 255 255 = 255"
proof -
  have "unat m < 2 ^ LENGTH(8)" by (rule unsigned_less)
  then have "unat m \<le> 255" by simp
  then have "255 * (255 - unat m) + 255 * unat m = 65025" by simp
  then show ?thesis by (simp add: blend_def div255_def)
qed

lemma paint_opaque:
  "alpha old = 255 \<Longrightarrow> alpha (ink c) = 255 \<Longrightarrow> alpha (paint blend_rgba e p old c) = 255"
  by (cases old; cases "ink c") (auto simp: paint_def blend_rgba_def alpha_def blend_opaque)

lemma rasterise_opaque:
  "alpha bg = 255 \<Longrightarrow> \<forall>c \<in> set cs. alpha (ink c) = 255 \<Longrightarrow>
     alpha (rasterise blend_rgba e bg cs p) = 255"
  by (induction cs rule: rev_induct) (auto simp: rasterise_Nil rasterise_snoc paint_opaque)

lemma border_calls_yellow:
  "c \<in> set (ticket_punches sz @ torn_edges sz @ side_borders sz) \<Longrightarrow>
     \<not> is_text c \<and> ink c = opaque yellow"
  by (auto simp: ticket_punches_def torn_edges_def side_borders_def Let_def split: if_splits)

subsection \<open>The corners\<close>

text \<open>From 64 pixels the alpha value of a pixel is the value of the mask there.\<close>

lemma icon_alpha_masked:
  "64 \<le> sz \<Longrightarrow> sz \<le> 1024 \<Longrightarrow>
   0 \<le> fst p \<Longrightarrow> fst p < sz \<Longrightarrow> 0 \<le> snd p \<Longrightarrow> snd p < sz \<Longrightarrow>
     icon_alpha e sz p = Some (mask_getpixel e (corner_mask sz) p)"
  by (simp add: icon_alpha_def create_blockbuster_icon_eq getpixel_def alpha_def
      split: prod.splits)

text \<open>The values of the mask at the pixels of interest, by running the walk.\<close>

lemma mask_at_corners:
  "list_all (\<lambda>sz. list_all (\<lambda>p. mask_getpixel e (corner_mask sz) p = 255) (corners sz))
     [64, 128, 256, 512, 1024]"
  by code_simp

lemma mask_at_centre:
  "list_all (\<lambda>sz. mask_getpixel e (corner_mask sz) (sz div 2, sz div 2) = 255)
     [64, 128, 256, 512, 1024]"
  by code_simp

lemma mask_at_disk_centres:
  "list_all (\<lambda>p. mask_getpixel e (corner_mask 64) p = 0) [(8, 8), (56, 8), (8, 56), (56, 56)]"
  by code_simp

lemma mask_at_top_row:
  "filter (\<lambda>x. mask_getpixel e (corner_mask 64) (x, 0) = 0) [0..63] =
     [6, 7, 8, 9, 10, 54, 55, 56, 57, 58]"
  by code_simp

text \<open>
  C1, the part from 64 pixels. The mask is white with four black disks, each drawn
  into a square of side \<open>size // 4\<close> in a corner of the image. A disk does not reach the
  corner of its square, so at every size of the list from 64 on the four corner pixels
  of the icon keep the alpha value 255: they are opaque, not transparent.
\<close>

theorem C1_corners_stay_opaque:
  "list_all (\<lambda>sz. list_all (\<lambda>p. icon_alpha e sz p = Some 255) (corners sz))
     [64, 128, 256, 512, 1024]"
  using mask_at_corners [of e] by (simp add: corners_def icon_alpha_masked)

text \<open>
  The rest of C1 holds: the centre pixel is opaque from 64 pixels, the disks are what is
  transparent, and below 64 pixels every pixel of the image is opaque.
\<close>

lemma centre_opaque:
  "list_all (\<lambda>sz. icon_alpha e sz (sz div 2, sz div 2) = Some 255) [64, 128, 256, 512, 1024]"
  using mask_at_centre [of e] by (simp add: icon_alpha_masked)

lemma disk_centres_transparent:
  "list_all (\<lambda>p. icon_alpha e 64 p = Some 0) [(8, 8), (56, 8), (8, 56), (56, 56)]"
  using mask_at_disk_centres [of e] by (simp add: icon_alpha_masked)

lemma text_calls_opaque_below_128:
  "sz < 128 \<Longrightarrow> c \<in> set (text_calls e sz) \<Longrightarrow> ink c = opaque yellow"
  by (auto simp: text_calls_def Let_def split: if_splits)

lemma small_icon_opaque:
  assumes "0 \<le> sz" and "sz < 64"
    and "0 \<le> fst p" and "fst p < sz" and "0 \<le> snd p" and "snd p < sz"
  shows "icon_alpha e sz p = Some 255"
proof -
  let ?cs = "ticket_punches sz @ torn_edges sz @ side_borders sz @ text_calls e sz"
  have "ink c = opaque yellow" if "c \<in> set ?cs" for c
  proof (cases "c \<in> set (text_calls e sz)")
    case True
    moreover from assms(2) have "sz < 128" by simp
    ultimately show ?thesis by (simp add: text_calls_opaque_below_128)
  next
    case False
    with that have "c \<in> set (ticket_punches sz @ torn_edges sz @ side_borders sz)" by simp
    then show ?thesis by (simp add: border_calls_yellow)
  qed
  then have "\<forall>c \<in> set ?cs. alpha (ink c) = 255"
    by (simp add: opaque_def yellow_def alpha_def)
  moreover have "alpha (opaque blue) = 255"
    by (simp add: opaque_def blue_def alpha_def)
  ultimately have "alpha (rasterise blend_rgba e (opaque blue) ?cs p) = 255"
    by (rule rasterise_opaque [rotated])
  with assms show ?thesis
    by (simp add: icon_alpha_def create_blockbuster_icon_eq getpixel_def alpha_def
        split: prod.splits)
qed

subsection \<open>The text\<close>

lemma shadow_not_yellow: "shadow \<noteq> opaque yellow"
  by (simp add: shadow_def opaque_def yellow_def)

lemma text_calls_small: "sz < 32 \<Longrightarrow> text_calls e sz = []"
  by (simp add: text_calls_def)

lemma text_calls_primary:
  assumes "128 \<le> sz" and "sz < 256"
    and "textbbox e (load_font e (sz div 8)) ''N64'' = (l, t, r, b)"
  shows "text_calls e sz =
     [Text ((sz - (r - l)) div 2 + 2, sz div 3 + 2) ''N64'' shadow (load_font e (sz div 8)),
      Text ((sz - (r - l)) div 2, sz div 3) ''N64'' (opaque yellow) (load_font e (sz div 8))]"
  using assms by (simp add: text_calls_def Let_def)

lemma text_calls_both:
  assumes "256 \<le> sz"
    and "textbbox e (load_font e (sz div 8)) ''N64'' = (l, t, r, b)"
    and "textbbox e (load_font e (sz div 16)) ''EMULATOR'' = (l2, t2, r2, b2)"
  shows "text_calls e sz =
     [Text ((sz - (r - l)) div 2 + 2, sz div 3 + 2) ''N64'' shadow (load_font e (sz div 8)),
      Text ((sz - (r - l)) div 2, sz div 3) ''N64'' (opaque yellow) (load_font e (sz div 8)),
      Text ((sz - (r2 - l2)) div 2 + 1, sz div 3 + (b - t) + sz div 20 + 1) ''EMULATOR'' shadow
        (load_font e (sz div 16)),
      Text ((sz - (r2 - l2)) div 2, sz div 3 + (b - t) + sz div 20) ''EMULATOR''
        (opaque yellow) (load_font e (sz div 16))]"
  using assms by (simp add: text_calls_def Let_def)

lemma border_calls_no_label:
  "filter is_label (ticket_punches sz) = []"
  "filter is_label (torn_edges sz) = []"
  "filter is_label (side_borders sz) = []"
  by (auto simp: filter_empty_conv ticket_punches_def torn_edges_def side_borders_def Let_def)

text \<open>The labels of an icon are those of its text calls.\<close>

lemma labels_in_text_calls:
  assumes "create_blockbuster_icon e sz = Inr img"
  shows "filter is_label (calls img) = filter is_label (text_calls e sz)"
    and "set (text_calls e sz) \<subseteq> set (calls img)"
    and "lbl \<in> set (calls img) \<Longrightarrow> is_label lbl \<Longrightarrow> lbl \<in> set (text_calls e sz)"
proof -
  have cs: "calls img =
      ticket_punches sz @ torn_edges sz @ side_borders sz @ text_calls e sz"
    by (subst create_blockbuster_icon_returned(2) [OF assms]) simp
  show labels: "filter is_label (calls img) = filter is_label (text_calls e sz)"
    by (simp add: cs border_calls_no_label)
  show "set (text_calls e sz) \<subseteq> set (calls img)"
    by (auto simp: cs)
  assume "lbl \<in> set (calls img)" and "is_label lbl"
  then have "lbl \<in> set (filter is_label (calls img))" by simp
  then show "lbl \<in> set (text_calls e sz)"
    by (simp add: labels)
qed

text \<open>
  C7. Below 32 pixels no text is drawn: the image has no text call, and each of its
  pixels is opaque blue, the background, or opaque yellow, the border.
\<close>

theorem C7_no_text_below_32:
  assumes "0 \<le> sz" and "sz < 32"
  shows "\<exists>img. create_blockbuster_icon e sz = Inr img \<and>
           \<not> list_ex is_text (calls img) \<and>
           (\<forall>p c. getpixel e img p = Some c \<longrightarrow> c = opaque blue \<or> c = opaque yellow)"
proof -
  let ?cs = "ticket_punches sz @ torn_edges sz @ side_borders sz"
  let ?img = "\<lparr>width = sz, height = sz, background = opaque blue, calls = ?cs,
                alpha_band = None\<rparr>"
  have img: "create_blockbuster_icon e sz = Inr ?img"
    using assms by (simp add: create_blockbuster_icon_eq text_calls_small)
  have shapes: "\<forall>c \<in> set ?cs. \<not> is_text c \<and> ink c = opaque yellow"
    using border_calls_yellow by blast
  then have no_text: "\<not> list_ex is_text (calls ?img)"
    by (simp add: list_ex_iff)
  have pal: "c = opaque blue \<or> c = opaque yellow" if "getpixel e ?img p = Some c" for p c
  proof -
    from rasterise_palette [OF shapes, of blend_rgba e "opaque blue" p]
    have "rasterise blend_rgba e (opaque blue) ?cs p = opaque blue \<or>
          rasterise blend_rgba e (opaque blue) ?cs p = opaque yellow" .
    with that show ?thesis
      by (auto simp: getpixel_def opaque_def blue_def yellow_def split: if_splits prod.splits)
  qed
  from img no_text pal show ?thesis by blast
qed

theorem C7_no_text_below_32_witness:
  "(0::int) \<le> 16 \<and> (16::int) < 32 \<and>
   (\<exists>img. create_blockbuster_icon sample_env 16 = Inr img \<and>
      \<not> list_ex is_text (calls img) \<and>
      (\<forall>p c. getpixel sample_env img p = Some c \<longrightarrow>
         c = opaque blue \<or> c = opaque yellow))"
  using C7_no_text_below_32 [of 16 sample_env] by simp

text \<open>
  C5, as the code has it. From 128 pixels the labels of an image the function returns
  are \<open>N64\<close> and, from 256 pixels, \<open>EMULATOR\<close>; each has a shadow, two pixels right
  and down for \<open>N64\<close>, one pixel right and down for \<open>EMULATOR\<close>. The function
  returns exactly when the canvas and the mask can be made.
\<close>

theorem C5_shadow_offsets:
  assumes "128 \<le> sz"
  shows "((\<exists>img. create_blockbuster_icon e sz = Inr img) \<longleftrightarrow> images_fit e sz) \<and>
         (\<forall>img. create_blockbuster_icon e sz = Inr img \<longrightarrow>
              map label_text (filter is_label (calls img)) =
                (if 256 \<le> sz then [''N64'', ''EMULATOR''] else [''N64'']) \<and>
              (\<forall>lbl \<in> set (calls img). is_label lbl \<longrightarrow>
                 shadowed_at (if label_text lbl = ''N64'' then 2 else 1) (calls img) lbl))"
proof -
  have returns: "(\<exists>img. create_blockbuster_icon e sz = Inr img) \<longleftrightarrow> images_fit e sz"
    using create_blockbuster_icon_returned(1) [of e sz] create_blockbuster_icon_returns [of e sz]
    by blast
  obtain l t r b where bb: "textbbox e (load_font e (sz div 8)) ''N64'' = (l, t, r, b)"
    by (cases "textbbox e (load_font e (sz div 8)) ''N64''") auto
  obtain l2 t2 r2 b2 where
    bb2: "textbbox e (load_font e (sz div 16)) ''EMULATOR'' = (l2, t2, r2, b2)"
    by (cases "textbbox e (load_font e (sz div 16)) ''EMULATOR''") auto
  have "map label_text (filter is_label (calls img)) =
          (if 256 \<le> sz then [''N64'', ''EMULATOR''] else [''N64'']) \<and>
        (\<forall>lbl \<in> set (calls img). is_label lbl \<longrightarrow>
           shadowed_at (if label_text lbl = ''N64'' then 2 else 1) (calls img) lbl)"
    if img: "create_blockbuster_icon e sz = Inr img" for img
  proof -
    note lab = labels_in_text_calls [OF img]
    show ?thesis
    proof (cases "256 \<le> sz")
      case True
      note tc = text_calls_both [OF True bb bb2]
      have "map label_text (filter is_label (calls img)) = [''N64'', ''EMULATOR'']"
        by (simp add: lab(1) tc shadow_not_yellow)
      moreover have "shadowed_at (if label_text lbl = ''N64'' then 2 else 1) (calls img) lbl"
        if "lbl \<in> set (calls img)" and "is_label lbl" for lbl
      proof -
        from lab(3) [OF that] have "lbl \<in> set (text_calls e sz)" .
        with that(2) lab(2) show ?thesis
          by (auto simp: tc shadow_not_yellow)
      qed
      ultimately show ?thesis using True by auto
    next
      case False
      with assms have small: "sz < 256" by simp
      note tc = text_calls_primary [OF assms small bb]
      have "map label_text (filter is_label (calls img)) = [''N64'']"
        by (simp add: lab(1) tc shadow_not_yellow)
      moreover have "shadowed_at (if label_text lbl = ''N64'' then 2 else 1) (calls img) lbl"
        if "lbl \<in> set (calls img)" and "is_label lbl" for lbl
      proof -
        from lab(3) [OF that] have "lbl \<in> set (text_calls e sz)" .
        with that(2) lab(2) show ?thesis
          by (auto simp: tc shadow_not_yellow)
      qed
      ultimately show ?thesis using False by auto
    qed
  qed
  with returns show ?thesis by blast
qed

theorem C5_shadow_offsets_witness:
  "(128::int) \<le> 256 \<and>
   (\<exists>img. create_blockbuster_icon sample_env 256 = Inr img \<and>
      map label_text (filter is_label (calls img)) = [''N64'', ''EMULATOR''] \<and>
      (\<forall>lbl \<in> set (calls img). is_label lbl \<longrightarrow>
         shadowed_at (if label_text lbl = ''N64'' then 2 else 1) (calls img) lbl))"
proof -
  have fit: "images_fit sample_env 256" by (simp add: images_fit_small)
  have le: "(128::int) \<le> 256" by simp
  note th = C5_shadow_offsets [OF le, where e = sample_env]
  from th fit obtain img where img: "create_blockbuster_icon sample_env 256 = Inr img"
    by auto
  from th img have props:
    "map label_text (filter is_label (calls img)) =
       (if (256::int) \<le> 256 then [''N64'', ''EMULATOR''] else [''N64'']) \<and>
     (\<forall>lbl \<in> set (calls img). is_label lbl \<longrightarrow>
        shadowed_at (if label_text lbl = ''N64'' then 2 else 1) (calls img) lbl)"
    by blast
  from props have names: "map label_text (filter is_label (calls img)) = [''N64'', ''EMULATOR'']"
    by simp
  from props have shadows:
    "\<forall>lbl \<in> set (calls img). is_label lbl \<longrightarrow>
       shadowed_at (if label_text lbl = ''N64'' then 2 else 1) (calls img) lbl"
    by (rule conjunct2)
  show ?thesis
    by (intro conjI exI [of _ img]) (rule le img names shadows)+
qed

text \<open>
  C5, as stated, fails at 128 pixels on the sample machine: the label \<open>N64\<close>, drawn at
  (55, 42), has no shadow at (56, 43). Its shadow is at (57, 44).
\<close>

theorem C5_one_pixel_shadow_counterexample:
  "unshadowed_labels 1 (icon_calls sample_env 128) =
     [Text (55, 42) ''N64'' (opaque yellow) DefaultFont]"
  by (simp add: unshadowed_labels_def icon_calls_eq ticket_punches_def torn_edges_def
      side_borders_def text_calls_def Let_def py_range_def sample_env_def load_font_def
      shadow_not_yellow)

text \<open>
  C6, as the code has it. From 256 pixels an image the function returns has two labels,
  \<open>N64\<close> and then \<open>EMULATOR\<close>, and the second is drawn strictly lower than the
  first, on a machine whose text boxes have their bottom at or below their top. The
  function returns exactly when the canvas and the mask can be made.
\<close>

theorem C6_secondary_below_primary:
  assumes "256 \<le> sz" and "\<And>f s. well_formed_bbox (textbbox e f s)"
  shows "((\<exists>img. create_blockbuster_icon e sz = Inr img) \<longleftrightarrow> images_fit e sz) \<and>
         (\<forall>img. create_blockbuster_icon e sz = Inr img \<longrightarrow>
            (\<exists>x1 y1 f1 x2 y2 f2.
               filter is_label (calls img) =
                 [Text (x1, y1) ''N64'' (opaque yellow) f1,
                  Text (x2, y2) ''EMULATOR'' (opaque yellow) f2] \<and>
               y1 < y2))"
proof -
  have returns: "(\<exists>img. create_blockbuster_icon e sz = Inr img) \<longleftrightarrow> images_fit e sz"
    using create_blockbuster_icon_returned(1) [of e sz] create_blockbuster_icon_returns [of e sz]
    by blast
  obtain l t r b where bb: "textbbox e (load_font e (sz div 8)) ''N64'' = (l, t, r, b)"
    by (cases "textbbox e (load_font e (sz div 8)) ''N64''") auto
  obtain l2 t2 r2 b2 where
    bb2: "textbbox e (load_font e (sz div 16)) ''EMULATOR'' = (l2, t2, r2, b2)"
    by (cases "textbbox e (load_font e (sz div 16)) ''EMULATOR''") auto
  from assms(2) [of "load_font e (sz div 8)" "''N64''"] bb have "t \<le> b"
    by (simp add: well_formed_bbox_def)
  moreover have "0 < sz div 20" using assms(1) by simp
  ultimately have below: "sz div 3 < sz div 3 + (b - t) + sz div 20" by simp
  have "\<exists>x1 y1 f1 x2 y2 f2.
          filter is_label (calls img) =
            [Text (x1, y1) ''N64'' (opaque yellow) f1,
             Text (x2, y2) ''EMULATOR'' (opaque yellow) f2] \<and>
          y1 < y2"
    if img: "create_blockbuster_icon e sz = Inr img" for img
  proof -
    have "filter is_label (calls img) =
        [Text ((sz - (r - l)) div 2, sz div 3) ''N64'' (opaque yellow) (load_font e (sz div 8)),
         Text ((sz - (r2 - l2)) div 2, sz div 3 + (b - t) + sz div 20) ''EMULATOR''
           (opaque yellow) (load_font e (sz div 16))]"
      by (simp add: labels_in_text_calls(1) [OF img] text_calls_both [OF assms(1) bb bb2]
          shadow_not_yellow)
    with below show ?thesis by blast
  qed
  with returns show ?thesis by blast
qed

theorem C6_secondary_below_primary_witness:
  "(256::int) \<le> 512 \<and> (\<forall>f s. well_formed_bbox (textbbox sample_env f s)) \<and>
   (\<exists>img x1 y1 f1 x2 y2 f2.
      create_blockbuster_icon sample_env 512 = Inr img \<and>
      filter is_label (calls img) =
        [Text (x1, y1) ''N64'' (opaque yellow) f1,
         Text (x2, y2) ''EMULATOR'' (opaque yellow) f2] \<and>
      y1 < y2)"
proof -
  have wf: "well_formed_bbox (textbbox sample_env f s)" for f s
    by (simp add: sample_env_def well_formed_bbox_def)
  have fit: "images_fit sample_env 512" by (simp add: images_fit_small)
  from C6_secondary_below_primary [of 512 sample_env, OF _ wf] fit
  obtain img where "create_blockbuster_icon sample_env 512 = Inr img"
    and "\<exists>x1 y1 f1 x2 y2 f2.
          filter is_label (calls img) =
            [Text (x1, y1) ''N64'' (opaque yellow) f1,
             Text (x2, y2) ''EMULATOR'' (opaque yellow) f2] \<and>
          y1 < y2"
    by auto
  with wf show ?thesis by auto
qed

text \<open>
  C6, as stated, fails at the size \<open>2 ^ 31 - 1\<close>: \<open>Image.new\<close> raises
  \<open>MemoryError\<close> before anything is drawn, and there is no label.
\<close>

theorem C6_every_size_counterexample:
  "create_blockbuster_icon sample_env 2147483647 = Inl MemoryError \<and>
   filter is_label (icon_calls sample_env 2147483647) = []"
  by (simp add: icon_calls_def create_blockbuster_icon_def Image_new_def Image_new_error_def
      INT_MAX_def)

subsection \<open>Sequences of statements\<close>

lemma run_all_append:
  "run_all (ss @ ts) w = (case run_all ss w of Inl err \<Rightarrow> Inl err | Inr w' \<Rightarrow> run_all ts w')"
  by (induction ss arbitrary: w) (auto split: sum.splits)

lemma run_all_snoc:
  "run_all (ss @ [t]) w = (case run_all ss w of Inl err \<Rightarrow> Inl err | Inr w' \<Rightarrow> t w')"
  by (simp add: run_all_append split: sum.splits)

lemma written_append: "written (xs @ ys) = written xs @ written ys"
  by (induction xs rule: written.induct) auto

lemma performs_log: "written [ev] = [] \<Longrightarrow> performs (log ev) []"
  by (auto simp: performs_def log_def)

lemma performs_print: "performs (print msg) []"
  by (simp add: print_def performs_log)

lemma performs_os_system: "performs (os_system cmd) []"
  by (simp add: os_system_def performs_log)

lemma performs_write_file: "performs (write_file p c) [(p, c)]"
  by (auto simp: performs_def write_file_def split: if_splits)

lemma performs_render_and_save:
  "performs (render_and_save e sz p) [(p, PngImage (icon e sz))]"
  using performs_write_file [of p "PngImage (icon e sz)"]
  by (auto simp: performs_def render_and_save_def Image_save_def icon_def split: sum.splits)

lemma performs_mkdir: "performs (mkdir_exist_ok name d) []"
  by (auto simp: performs_def mkdir_exist_ok_def split: if_splits)

lemma performs_Nil: "performs (run_all []) []"
  by (simp add: performs_def)

lemma performs_Cons:
  assumes "performs s ps" and "performs (run_all ss) qs"
  shows "performs (run_all (s # ss)) (ps @ qs)"
  unfolding performs_def
proof (intro allI impI)
  fix w w'
  assume run: "run_all (s # ss) w = Inr w'"
  then obtain w1 where s: "s w = Inr w1" and ss: "run_all ss w1 = Inr w'"
    by (auto split: sum.splits)
  from assms(1) s obtain evs1 where
    t1: "trace w1 = trace w @ evs1" "written evs1 = ps"
    and f1: "files w1 = fold (\<lambda>(p, c). AList.update p c) ps (files w)"
    unfolding performs_def by blast
  from assms(2) ss obtain evs2 where
    t2: "trace w' = trace w1 @ evs2" "written evs2 = qs"
    and f2: "files w' = fold (\<lambda>(p, c). AList.update p c) qs (files w1)"
    unfolding performs_def by blast
  have "trace w' = trace w @ (evs1 @ evs2) \<and> written (evs1 @ evs2) = ps @ qs"
    using t1 t2 by (simp add: written_append)
  moreover have "files w' = fold (\<lambda>(p, c). AList.update p c) (ps @ qs) (files w)"
    using f1 f2 by simp
  ultimately show "(\<exists>evs. trace w' = trace w @ evs \<and> written evs = ps @ qs) \<and>
      files w' = fold (\<lambda>(p, c). AList.update p c) (ps @ qs) (files w)"
    by blast
qed

lemma performs_silent:
  "performs s [] \<Longrightarrow> performs (run_all ss) qs \<Longrightarrow> performs (run_all (s # ss)) qs"
  using performs_Cons [of s "[]" ss qs] by simp

lemma performs_one:
  "performs s [pc] \<Longrightarrow> performs (run_all ss) qs \<Longrightarrow> performs (run_all (s # ss)) (pc # qs)"
  using performs_Cons [of s "[pc]" ss qs] by simp

lemma performs_all_silent:
  "\<forall>s \<in> set ss. performs s [] \<Longrightarrow> performs (run_all ss) []"
  by (induction ss) (auto intro: performs_Nil performs_silent)

lemma performs_makedirs: "performs (makedirs_exist_ok name) []"
  unfolding makedirs_exist_ok_def
  by (rule performs_all_silent) (auto simp: performs_mkdir performs_log)

lemma steady_log: "steady (log ev)"
  by (simp add: steady_def log_def)

lemma steady_print: "steady (print msg)"
  by (simp add: print_def steady_log)

lemma steady_os_system: "steady (os_system cmd)"
  by (simp add: os_system_def steady_log)

lemma steady_write_file: "steady (write_file p c)"
  by (auto simp: steady_def write_file_def isdir_def split: if_splits)

lemma steady_render_and_save: "steady (render_and_save e sz p)"
  using steady_write_file [of p]
  by (auto simp: steady_def render_and_save_def Image_save_def split: sum.splits)

lemma steady_run_all: "\<forall>s \<in> set ss. steady s \<Longrightarrow> steady (run_all ss)"
proof (induction ss)
  case Nil
  show ?case by (simp add: steady_def)
next
  case (Cons s ss)
  then have s: "steady s" and ss: "steady (run_all ss)" by simp_all
  show ?case
    unfolding steady_def
  proof (intro allI impI conjI)
    fix w w'
    assume run: "run_all (s # ss) w = Inr w'"
    then obtain w1 where 1: "s w = Inr w1" and 2: "run_all ss w1 = Inr w'"
      by (auto split: sum.splits)
    from s 1 have d1: "dirs w1 = dirs w" by (simp add: steady_def)
    from ss 2 have d2: "dirs w' = dirs w1" by (simp add: steady_def)
    from d1 d2 show "dirs w' = dirs w" by simp
    fix v :: world
    assume v: "dirs v = dirs w"
    with s 1 obtain v1 where 3: "s v = Inr v1" unfolding steady_def by blast
    with s have "dirs v1 = dirs v" by (simp add: steady_def)
    with v d1 have "dirs v1 = dirs w1" by simp
    with ss 2 obtain v' where "run_all ss v1 = Inr v'" unfolding steady_def by blast
    with 3 show "\<exists>v'. run_all (s # ss) v = Inr v'" by simp
  qed
qed

subsection \<open>Creating the directories\<close>

lemma mkdirs_result:
  "run_all (map (mkdir_exist_ok name) ds) w = Inr w' \<Longrightarrow>
     (\<forall>d \<in> set ds. isdir w' d) \<and> set (dirs w) \<subseteq> set (dirs w')"
proof (induction ds arbitrary: w)
  case Nil
  then show ?case by simp
next
  case (Cons d ds)
  then obtain w1 where 1: "mkdir_exist_ok name d w = Inr w1"
    and 2: "run_all (map (mkdir_exist_ok name) ds) w1 = Inr w'"
    by (auto split: sum.splits)
  from 1 have "isdir w1 d \<and> set (dirs w) \<subseteq> set (dirs w1)"
    by (auto simp: mkdir_exist_ok_def isdir_def split: if_splits)
  moreover from Cons.IH [OF 2]
  have "(\<forall>d \<in> set ds. isdir w' d) \<and> set (dirs w1) \<subseteq> set (dirs w')" .
  ultimately show ?case by (auto simp: isdir_def)
qed

lemma mkdirs_again:
  "\<forall>d \<in> set ds. isdir v d \<Longrightarrow> run_all (map (mkdir_exist_ok name) ds) v = Inr v"
  by (induction ds) (auto simp: mkdir_exist_ok_def)

lemma makedirs_result:
  assumes "makedirs_exist_ok name w = Inr w'"
  shows "\<forall>d \<in> set (ancestors name @ [name]). isdir w' d"
proof -
  from assms obtain w1 where
    1: "run_all (map (mkdir_exist_ok name) (ancestors name @ [name])) w = Inr w1"
    and 2: "w' = w1\<lparr>trace := trace w1 @ [Makedirs name]\<rparr>"
    unfolding makedirs_exist_ok_def run_all_snoc by (auto simp: log_def split: sum.splits)
  from mkdirs_result [OF 1] 2 show ?thesis by (simp add: isdir_def)
qed

text \<open>Where the directories exist already, \<open>os.makedirs\<close> changes nothing and returns.\<close>

lemma makedirs_again:
  assumes "\<forall>d \<in> set (ancestors name @ [name]). isdir v d"
  shows "makedirs_exist_ok name v = Inr (v\<lparr>trace := trace v @ [Makedirs name]\<rparr>)"
  unfolding makedirs_exist_ok_def run_all_snoc
  by (simp only: mkdirs_again [OF assms, of name]) (simp add: log_def)

subsection \<open>The run of \<open>main\<close>\<close>

text \<open>The statements of \<open>main\<close>, with the loop unrolled and the names computed.\<close>

lemma main_steps:
  "main e =
     run_all
      [makedirs_exist_ok output_dir,
       print ''Generating Blockbuster-style icons...'',
       render_and_save e 16 ''Resources/AppIcon.appiconset/icon_16x16.png'',
       print (check_mark @ '' Created icon_16x16.png''),
       render_and_save e 32 ''Resources/AppIcon.appiconset/icon_16x16@2x.png'',
       print (check_mark @ '' Created icon_16x16@2x.png''),
       render_and_save e 32 ''Resources/AppIcon.appiconset/icon_32x32.png'',
       print (check_mark @ '' Created icon_32x32.png''),
       render_and_save e 64 ''Resources/AppIcon.appiconset/icon_32x32@2x.png'',
       print (check_mark @ '' Created icon_32x32@2x.png''),
       render_and_save e 64 ''Resources/AppIcon.appiconset/icon_64x64.png'',
       print (check_mark @ '' Created icon_64x64.png''),
       render_and_save e 128 ''Resources/AppIcon.appiconset/icon_64x64@2x.png'',
       print (check_mark @ '' Created icon_64x64@2x.png''),
       render_and_save e 128 ''Resources/AppIcon.appiconset/icon_128x128.png'',
       print (check_mark @ '' Created icon_128x128.png''),
       render_and_save e 256 ''Resources/AppIcon.appiconset/icon_128x128@2x.png'',
       print (check_mark @ '' Created icon_128x128@2x.png''),
       render_and_save e 256 ''Resources/AppIcon.appiconset/icon_256x256.png'',
       print (check_mark @ '' Created icon_256x256.png''),
       render_and_save e 512 ''Resources/AppIcon.appiconset/icon_256x256@2x.png'',
       print (check_mark @ '' Created icon_256x256@2x.png''),
       render_and_save e 512 ''Resources/AppIcon.appiconset/icon_512x512.png'',
       print (check_mark @ '' Created icon_512x512.png''),
       render_and_save e 1024 ''Resources/AppIcon.appiconset/icon_512x512@2x.png'',
       print (check_mark @ '' Created icon_512x512@2x.png''),
       render_and_save e 1024 ''Resources/AppIcon.appiconset/icon_1024x1024.png'',
       print (check_mark @ '' Created icon_1024x1024.png''),
       write_file ''Resources/AppIcon.appiconset/Contents.json'' (TextFile contents_json),
       print (check_mark @ '' Created Contents.json''),
       print (newline # ''Generating .icns file...''),
       os_system ''cd Resources && iconutil -c icns AppIcon.appiconset -o AppIcon.icns'',
       print (check_mark @ '' Created AppIcon.icns''),
       print (newline # party_popper
              @ '' Icon set complete! Files created in Resources/AppIcon.appiconset/''),
       print (package @ '' To use in your app, add AppIcon.icns to your Xcode project.'')]"
  by (simp add: main_def sizes_def icon_steps_def icon_filename_def icon_filename_2x_def
      Let_def str_def str_nat.simps path_join_def output_dir_def sep_def)

text \<open>The files a run writes, in order, with their contents.\<close>

lemma main_performs:
  "performs (main e)
     [(''Resources/AppIcon.appiconset/icon_16x16.png'', PngImage (icon e 16)),
      (''Resources/AppIcon.appiconset/icon_16x16@2x.png'', PngImage (icon e 32)),
      (''Resources/AppIcon.appiconset/icon_32x32.png'', PngImage (icon e 32)),
      (''Resources/AppIcon.appiconset/icon_32x32@2x.png'', PngImage (icon e 64)),
      (''Resources/AppIcon.appiconset/icon_64x64.png'', PngImage (icon e 64)),
      (''Resources/AppIcon.appiconset/icon_64x64@2x.png'', PngImage (icon e 128)),
      (''Resources/AppIcon.appiconset/icon_128x128.png'', PngImage (icon e 128)),
      (''Resources/AppIcon.appiconset/icon_128x128@2x.png'', PngImage (icon e 256)),
      (''Resources/AppIcon.appiconset/icon_256x256.png'', PngImage (icon e 256)),
      (''Resources/AppIcon.appiconset/icon_256x256@2x.png'', PngImage (icon e 512)),
      (''Resources/AppIcon.appiconset/icon_512x512.png'', PngImage (icon e 512)),
      (''Resources/AppIcon.appiconset/icon_512x512@2x.png'', PngImage (icon e 1024)),
      (''Resources/AppIcon.appiconset/icon_1024x1024.png'', PngImage (icon e 1024)),
      (''Resources/AppIcon.appiconset/Contents.json'', TextFile contents_json)]"
  unfolding main_steps
  by (rule performs_Nil
        | (rule performs_silent, (rule performs_print performs_os_system performs_makedirs))
        | (rule performs_one, (rule performs_render_and_save performs_write_file)))+

lemma main_written:
  assumes "main e w = Inr w'"
  shows "written (new_events w w') =
     [(''Resources/AppIcon.appiconset/icon_16x16.png'', PngImage (icon e 16)),
      (''Resources/AppIcon.appiconset/icon_16x16@2x.png'', PngImage (icon e 32)),
      (''Resources/AppIcon.appiconset/icon_32x32.png'', PngImage (icon e 32)),
      (''Resources/AppIcon.appiconset/icon_32x32@2x.png'', PngImage (icon e 64)),
      (''Resources/AppIcon.appiconset/icon_64x64.png'', PngImage (icon e 64)),
      (''Resources/AppIcon.appiconset/icon_64x64@2x.png'', PngImage (icon e 128)),
      (''Resources/AppIcon.appiconset/icon_128x128.png'', PngImage (icon e 128)),
      (''Resources/AppIcon.appiconset/icon_128x128@2x.png'', PngImage (icon e 256)),
      (''Resources/AppIcon.appiconset/icon_256x256.png'', PngImage (icon e 256)),
      (''Resources/AppIcon.appiconset/icon_256x256@2x.png'', PngImage (icon e 512)),
      (''Resources/AppIcon.appiconset/icon_512x512.png'', PngImage (icon e 512)),
      (''Resources/AppIcon.appiconset/icon_512x512@2x.png'', PngImage (icon e 1024)),
      (''Resources/AppIcon.appiconset/icon_1024x1024.png'', PngImage (icon e 1024)),
      (''Resources/AppIcon.appiconset/Contents.json'', TextFile contents_json)]"
    and "files w' = fold (\<lambda>(p, c). AList.update p c) (written (new_events w w')) (files w)"
proof -
  let ?pcs = "[(''Resources/AppIcon.appiconset/icon_16x16.png'', PngImage (icon e 16)),
      (''Resources/AppIcon.appiconset/icon_16x16@2x.png'', PngImage (icon e 32)),
      (''Resources/AppIcon.appiconset/icon_32x32.png'', PngImage (icon e 32)),
      (''Resources/AppIcon.appiconset/icon_32x32@2x.png'', PngImage (icon e 64)),
      (''Resources/AppIcon.appiconset/icon_64x64.png'', PngImage (icon e 64)),
      (''Resources/AppIcon.appiconset/icon_64x64@2x.png'', PngImage (icon e 128)),
      (''Resources/AppIcon.appiconset/icon_128x128.png'', PngImage (icon e 128)),
      (''Resources/AppIcon.appiconset/icon_128x128@2x.png'', PngImage (icon e 256)),
      (''Resources/AppIcon.appiconset/icon_256x256.png'', PngImage (icon e 256)),
      (''Resources/AppIcon.appiconset/icon_256x256@2x.png'', PngImage (icon e 512)),
      (''Resources/AppIcon.appiconset/icon_512x512.png'', PngImage (icon e 512)),
      (''Resources/AppIcon.appiconset/icon_512x512@2x.png'', PngImage (icon e 1024)),
      (''Resources/AppIcon.appiconset/icon_1024x1024.png'', PngImage (icon e 1024)),
      (''Resources/AppIcon.appiconset/Contents.json'', TextFile contents_json)]"
  from main_performs [of e] assms obtain evs where
    t: "trace w' = trace w @ evs" and wr: "written evs = ?pcs"
    and f: "files w' = fold (\<lambda>(p, c). AList.update p c) ?pcs (files w)"
    unfolding performs_def by blast
  from t have ne: "new_events w w' = evs" by (simp add: new_events_def)
  show "written (new_events w w') = ?pcs" by (simp only: ne wr)
  show "files w' = fold (\<lambda>(p, c). AList.update p c) (written (new_events w w')) (files w)"
    by (simp only: ne wr f)
qed

lemma main_names:
  assumes "main e w = Inr w'"
  shows "map fst (written (new_events w w')) =
     [''Resources/AppIcon.appiconset/icon_16x16.png'',
      ''Resources/AppIcon.appiconset/icon_16x16@2x.png'',
      ''Resources/AppIcon.appiconset/icon_32x32.png'',
      ''Resources/AppIcon.appiconset/icon_32x32@2x.png'',
      ''Resources/AppIcon.appiconset/icon_64x64.png'',
      ''Resources/AppIcon.appiconset/icon_64x64@2x.png'',
      ''Resources/AppIcon.appiconset/icon_128x128.png'',
      ''Resources/AppIcon.appiconset/icon_128x128@2x.png'',
      ''Resources/AppIcon.appiconset/icon_256x256.png'',
      ''Resources/AppIcon.appiconset/icon_256x256@2x.png'',
      ''Resources/AppIcon.appiconset/icon_512x512.png'',
      ''Resources/AppIcon.appiconset/icon_512x512@2x.png'',
      ''Resources/AppIcon.appiconset/icon_1024x1024.png'',
      ''Resources/AppIcon.appiconset/Contents.json'']"
  by (simp only: main_written(1) [OF assms] list.map fst_conv)

text \<open>In an empty working directory the run returns.\<close>

lemma main_empty_world: "\<exists>w'. main e empty_world = Inr w'"
  by (simp add: main_steps empty_world_def makedirs_exist_ok_def ancestors_def output_dir_def
      sep_def upt_conv_Cons mkdir_exist_ok_def isdir_def isfile_def log_def print_def
      os_system_def render_and_save_def create_blockbuster_icon_eq Image_save_def
      write_file_def dirname_def)

text \<open>
  After the directories are made, the rest of \<open>main\<close> leaves the directories alone and
  returns or raises according to them only.
\<close>

lemma main_split:
  "\<exists>rest. steady (run_all rest) \<and>
     (\<forall>w. main e w = (case makedirs_exist_ok output_dir w of
                        Inl err \<Rightarrow> Inl err | Inr w' \<Rightarrow> run_all rest w'))"
proof -
  let ?rest = "[print ''Generating Blockbuster-style icons...'']
       @ concat (map (icon_steps e) sizes)
       @ [write_file (path_join output_dir ''Contents.json'') (TextFile contents_json),
          print (check_mark @ '' Created Contents.json''),
          print (newline # ''Generating .icns file...''),
          os_system ''cd Resources && iconutil -c icns AppIcon.appiconset -o AppIcon.icns'',
          print (check_mark @ '' Created AppIcon.icns''),
          print (newline # party_popper
                 @ '' Icon set complete! Files created in Resources/AppIcon.appiconset/''),
          print (package @ '' To use in your app, add AppIcon.icns to your Xcode project.'')]"
  have "\<forall>s \<in> set ?rest. steady s"
    by (auto simp: icon_steps_def Let_def steady_print steady_os_system steady_write_file
        steady_render_and_save split: if_splits)
  then have "steady (run_all ?rest)" by (rule steady_run_all)
  moreover have "main e w = (case makedirs_exist_ok output_dir w of
                        Inl err \<Rightarrow> Inl err | Inr w' \<Rightarrow> run_all ?rest w')" for w
    by (simp add: main_def split: sum.splits)
  ultimately show ?thesis by blast
qed

text \<open>A run that returned can be repeated: the second run returns too.\<close>

lemma main_again:
  assumes "main e w0 = Inr w1"
  shows "\<exists>w2. main e w1 = Inr w2"
proof -
  from main_split [of e] obtain rest where st: "steady (run_all rest)"
    and m: "\<And>w. main e w = (case makedirs_exist_ok output_dir w of
                        Inl err \<Rightarrow> Inl err | Inr w' \<Rightarrow> run_all rest w')"
    by blast
  from assms m [of w0] obtain wa where a: "makedirs_exist_ok output_dir w0 = Inr wa"
    and r: "run_all rest wa = Inr w1"
    by (auto split: sum.splits)
  from st r have d: "dirs w1 = dirs wa" by (simp add: steady_def)
  from makedirs_result [OF a] d
  have "\<forall>d \<in> set (ancestors output_dir @ [output_dir]). isdir w1 d"
    by (simp add: isdir_def)
  from makedirs_again [OF this]
  have b: "makedirs_exist_ok output_dir w1 =
      Inr (w1\<lparr>trace := trace w1 @ [Makedirs output_dir]\<rparr>)" .
  from st r d obtain w2 where
    "run_all rest (w1\<lparr>trace := trace w1 @ [Makedirs output_dir]\<rparr>) = Inr w2"
    unfolding steady_def by fastforce
  with m [of w1] b show ?thesis by simp
qed

subsection \<open>The manifest\<close>

lemma split_lines_step:
  "newline \<notin> set l \<Longrightarrow>
     foldr (\<lambda>c acc. if c = newline then [] # acc
                    else (case acc of [] \<Rightarrow> [[c]] | l # ls \<Rightarrow> (c # l) # ls)) l (x # acc)
     = (l @ x) # acc"
  by (induction l) auto

lemma split_lines_lines_text:
  "\<forall>l \<in> set ls. newline \<notin> set l \<Longrightarrow> split_lines (lines_text ls) = ls"
proof (induction ls)
  case Nil
  show ?case by (simp add: split_lines_def lines_text_def)
next
  case (Cons l ls)
  then have ih: "split_lines (lines_text ls) = ls" and l: "newline \<notin> set l" by simp_all
  have "split_lines (lines_text (l # ls)) =
      foldr (\<lambda>c acc. if c = newline then [] # acc
                    else (case acc of [] \<Rightarrow> [[c]] | l # ls \<Rightarrow> (c # l) # ls)) l
        ([] # split_lines (lines_text ls))"
    by (simp add: split_lines_def lines_text_def)
  also have "\<dots> = (l @ []) # split_lines (lines_text ls)"
    by (rule split_lines_step [OF l])
  finally show ?case by (simp add: ih)
qed

text \<open>The ten file names the manifest refers to.\<close>

lemma manifest_filenames_contents_json:
  "manifest_filenames contents_json =
     [''icon_16x16.png'', ''icon_16x16@2x.png'', ''icon_32x32.png'', ''icon_32x32@2x.png'',
      ''icon_128x128.png'', ''icon_128x128@2x.png'', ''icon_256x256.png'',
      ''icon_256x256@2x.png'', ''icon_512x512.png'', ''icon_512x512@2x.png'']"
  unfolding manifest_filenames_def contents_json_def
  by (subst split_lines_lines_text) (simp_all add: newline_def line_filename_def filename_key_def)

subsection \<open>The files of the icon set\<close>

text \<open>
  C2, as the code has it. A run of \<open>main\<close> that returns writes fourteen files: the seven
  standard images, one for each size of the list; six double-density images, one for each
  size up to 512, which are all sizes but 1024; and the manifest.
\<close>

theorem C2_files_written:
  assumes "main e w = Inr w'"
  shows "filter standard_density (map fst (written (new_events w w'))) =
           map (\<lambda>sz. path_join output_dir (icon_filename sz)) [16, 32, 64, 128, 256, 512, 1024] \<and>
         filter double_density (map fst (written (new_events w w'))) =
           map (\<lambda>sz. path_join output_dir (icon_filename_2x sz)) [16, 32, 64, 128, 256, 512] \<and>
         filter manifest_document (map fst (written (new_events w w'))) =
           [path_join output_dir ''Contents.json''] \<and>
         length (written (new_events w w')) = 14"
proof -
  note names = main_names [OF assms]
  have "filter standard_density (map fst (written (new_events w w'))) =
      map (\<lambda>sz. path_join output_dir (icon_filename sz)) [16, 32, 64, 128, 256, 512, 1024]"
    by (simp add: names standard_density_def ends_with_def icon_filename_def str_def
        str_nat.simps path_join_def output_dir_def sep_def)
  moreover have "filter double_density (map fst (written (new_events w w'))) =
      map (\<lambda>sz. path_join output_dir (icon_filename_2x sz)) [16, 32, 64, 128, 256, 512]"
    by (simp add: names double_density_def ends_with_def icon_filename_2x_def str_def
        str_nat.simps path_join_def output_dir_def sep_def)
  moreover have "filter manifest_document (map fst (written (new_events w w'))) =
      [path_join output_dir ''Contents.json'']"
    by (simp add: names manifest_document_def ends_with_def path_join_def output_dir_def
        sep_def)
  moreover have "length (written (new_events w w')) = 14"
    by (simp add: main_written(1) [OF assms])
  ultimately show ?thesis by blast
qed

theorem C2_files_written_witness:
  "\<exists>w'. main sample_env empty_world = Inr w' \<and>
     filter standard_density (map fst (written (new_events empty_world w'))) =
       map (\<lambda>sz. path_join output_dir (icon_filename sz)) [16, 32, 64, 128, 256, 512, 1024] \<and>
     filter double_density (map fst (written (new_events empty_world w'))) =
       map (\<lambda>sz. path_join output_dir (icon_filename_2x sz)) [16, 32, 64, 128, 256, 512] \<and>
     filter manifest_document (map fst (written (new_events empty_world w'))) =
       [path_join output_dir ''Contents.json''] \<and>
     length (written (new_events empty_world w')) = 14"
proof -
  from main_empty_world [of sample_env] obtain w' where
    run: "main sample_env empty_world = Inr w'" by blast
  from C2_files_written [OF run] run show ?thesis by blast
qed

text \<open>
  C2, as stated, fails: run on the sample machine in an empty working directory,
  \<open>main\<close> writes six double-density images, not five.
\<close>

theorem C2_five_double_density_counterexample:
  "length (filter double_density (run_names sample_env empty_world)) = 6 \<and>
   length (filter double_density (run_names sample_env empty_world)) \<noteq> 5"
proof -
  from main_empty_world [of sample_env] obtain w' where
    run: "main sample_env empty_world = Inr w'" by blast
  then have "run_names sample_env empty_world = map fst (written (new_events empty_world w'))"
    by (simp add: run_names_def)
  then show ?thesis
    by (simp add: main_names [OF run] double_density_def ends_with_def)
qed

text \<open>
  C3. Every file name the manifest refers to is the name of a file the same run has
  written into the output directory before it writes the manifest; the manifest written
  is the literal; and for each of the sizes 16, 32, 128, 256 and 512 the manifest refers
  to both the standard and the double-density image.
\<close>

theorem C3_manifest_names_written:
  assumes "main e w = Inr w'"
  shows "(\<forall>f \<in> set (manifest_filenames contents_json).
            path_join output_dir f
              \<in> set (written_before (path_join output_dir ''Contents.json'')
                       (map fst (written (new_events w w'))))) \<and>
         (path_join output_dir ''Contents.json'', TextFile contents_json)
           \<in> set (written (new_events w w')) \<and>
         (\<forall>sz \<in> {16, 32, 128, 256, 512}.
            icon_filename sz \<in> set (manifest_filenames contents_json) \<and>
            icon_filename_2x sz \<in> set (manifest_filenames contents_json))"
proof -
  have "\<forall>f \<in> set (manifest_filenames contents_json).
      path_join output_dir f
        \<in> set (written_before (path_join output_dir ''Contents.json'')
                 (map fst (written (new_events w w'))))"
    by (simp add: manifest_filenames_contents_json main_names [OF assms] written_before_def
        path_join_def output_dir_def sep_def)
  moreover have "(path_join output_dir ''Contents.json'', TextFile contents_json)
      \<in> set (written (new_events w w'))"
    by (simp add: main_written(1) [OF assms] path_join_def output_dir_def sep_def)
  moreover have "\<forall>sz \<in> {16, 32, 128, 256, 512}.
      icon_filename sz \<in> set (manifest_filenames contents_json) \<and>
      icon_filename_2x sz \<in> set (manifest_filenames contents_json)"
    by (simp add: manifest_filenames_contents_json icon_filename_def icon_filename_2x_def
        str_def str_nat.simps)
  ultimately show ?thesis by blast
qed

theorem C3_manifest_names_written_witness:
  "\<exists>w'. main sample_env empty_world = Inr w' \<and>
     length (manifest_filenames contents_json) = 10 \<and>
     (\<forall>f \<in> set (manifest_filenames contents_json).
        path_join output_dir f
          \<in> set (written_before (path_join output_dir ''Contents.json'')
                   (map fst (written (new_events empty_world w'))))) \<and>
     (path_join output_dir ''Contents.json'', TextFile contents_json)
       \<in> set (written (new_events empty_world w'))"
proof -
  from main_empty_world [of sample_env] obtain w' where
    run: "main sample_env empty_world = Inr w'" by blast
  from C3_manifest_names_written [OF run] run show ?thesis
    by (simp add: manifest_filenames_contents_json)
qed

subsection \<open>Running twice\<close>

lemma fold_update_keys:
  "fst ` set (fold (\<lambda>(p, c). AList.update p c) pcs al) = fst ` set al \<union> fst ` set pcs"
proof (induction pcs arbitrary: al)
  case Nil
  show ?case by simp
next
  case (Cons pc pcs)
  obtain p c where pc: "pc = (p, c)" by (cases pc)
  have "fst ` set (fold (\<lambda>(p, c). AList.update p c) (pc # pcs) al) =
      fst ` set (AList.update p c al) \<union> fst ` set pcs"
    using Cons.IH [of "AList.update p c al"] by (simp add: pc)
  also have "\<dots> = fst ` set al \<union> fst ` set (pc # pcs)"
    by (auto simp: dom_update pc)
  finally show ?case .
qed

lemma fold_update_known_keys:
  "fst ` set pcs \<subseteq> fst ` set al \<Longrightarrow>
     map fst (fold (\<lambda>(p, c). AList.update p c) pcs al) = map fst al"
proof (induction pcs arbitrary: al)
  case Nil
  show ?case by simp
next
  case (Cons pc pcs)
  obtain p c where pc: "pc = (p, c)" by (cases pc)
  from Cons.prems have p: "p \<in> fst ` set al" and rest: "fst ` set pcs \<subseteq> fst ` set al"
    by (auto simp: pc)
  from p have keys: "map fst (AList.update p c al) = map fst al"
    by (simp add: update_keys)
  from rest have "fst ` set pcs \<subseteq> fst ` set (AList.update p c al)"
    by (auto simp: dom_update)
  from Cons.IH [OF this] keys show ?case by (simp add: pc)
qed

text \<open>
  C9. After a run of \<open>main\<close> that returned, a second run returns too; it writes the
  files of the same names in the same order, each replacing the file of the first run,
  so that no file is added; and the manifest it writes is, byte for byte, the manifest
  the first run wrote.
\<close>

theorem C9_second_run:
  assumes "main e w0 = Inr w1"
  shows "\<exists>w2. main e w1 = Inr w2 \<and>
           map fst (written (new_events w1 w2)) = map fst (written (new_events w0 w1)) \<and>
           map_of (written (new_events w0 w1)) (path_join output_dir ''Contents.json'') =
             Some (TextFile contents_json) \<and>
           map_of (written (new_events w1 w2)) (path_join output_dir ''Contents.json'') =
             Some (TextFile contents_json) \<and>
           map fst (files w2) = map fst (files w1) \<and>
           map_of (files w2) (path_join output_dir ''Contents.json'') =
             Some (TextFile contents_json)"
proof -
  from main_again [OF assms] obtain w2 where run2: "main e w1 = Inr w2" by blast
  have names: "map fst (written (new_events w1 w2)) = map fst (written (new_events w0 w1))"
    by (simp only: main_names [OF assms] main_names [OF run2])
  have m1: "map_of (written (new_events w0 w1)) (path_join output_dir ''Contents.json'') =
      Some (TextFile contents_json)"
    by (simp add: main_written(1) [OF assms] path_join_def output_dir_def sep_def)
  have m2: "map_of (written (new_events w1 w2)) (path_join output_dir ''Contents.json'') =
      Some (TextFile contents_json)"
    by (simp add: main_written(1) [OF run2] path_join_def output_dir_def sep_def)
  have "fst ` set (files w1) =
      fst ` set (files w0) \<union> fst ` set (written (new_events w0 w1))"
    using arg_cong [OF main_written(2) [OF assms], of "\<lambda>al. fst ` set al"]
    by (simp only: fold_update_keys)
  then have "fst ` set (written (new_events w0 w1)) \<subseteq> fst ` set (files w1)"
    by blast
  moreover have "fst ` set (written (new_events w1 w2)) = fst ` set (written (new_events w0 w1))"
    using arg_cong [OF names, of set] by simp
  ultimately have known: "fst ` set (written (new_events w1 w2)) \<subseteq> fst ` set (files w1)"
    by simp
  have keys: "map fst (files w2) = map fst (files w1)"
    by (subst main_written(2) [OF run2]) (rule fold_update_known_keys [OF known])
  have "map_of (files w2) ''Resources/AppIcon.appiconset/Contents.json'' =
      Some (TextFile contents_json)"
    by (subst main_written(2) [OF run2], subst main_written(1) [OF run2])
      (simp add: update_conv')
  then have m3: "map_of (files w2) (path_join output_dir ''Contents.json'') =
      Some (TextFile contents_json)"
    by (simp add: path_join_def output_dir_def sep_def)
  from run2 names m1 m2 keys m3 show ?thesis by blast
qed

theorem C9_second_run_witness:
  "\<exists>w1 w2. main sample_env empty_world = Inr w1 \<and> main sample_env w1 = Inr w2 \<and>
     map fst (written (new_events w1 w2)) = map fst (written (new_events empty_world w1)) \<and>
     map_of (written (new_events empty_world w1)) (path_join output_dir ''Contents.json'') =
       Some (TextFile contents_json) \<and>
     map_of (written (new_events w1 w2)) (path_join output_dir ''Contents.json'') =
       Some (TextFile contents_json) \<and>
     map fst (files w2) = map fst (files w1) \<and>
     map_of (files w2) (path_join output_dir ''Contents.json'') = Some (TextFile contents_json)"
proof -
  from main_empty_world [of sample_env] obtain w1 where
    run: "main sample_env empty_world = Inr w1" by blast
  from C9_second_run [OF run] run show ?thesis by blast
qed

end
